theory Spec2Isabelle
  imports Main "HOL-Library.AList"
begin

section \<open>Values, dictionaries and exceptions\<close>

text \<open>
  The tool works on the mappings that the YAML front-matter loader returns and on the
  nested mapping it sends to the registry. A value is \<open>None\<close>, a text, an integer, a
  list or a mapping with text keys. A Python \<open>dict\<close> keeps insertion order, so a mapping
  is an association list; \<open>wf_val\<close> says that no key occurs twice, at any depth, as in
  every Python dict.

  A \<open>string\<close> stands for a Python \<open>str\<close> through the UTF-8 bytes of its code
  points. A \<open>str\<close> may hold a lone surrogate (U+D800 to U+DFFF), which UTF-8 excludes;
  it is written with the three bytes \<open>ED A0..BF 80..BF\<close> that the encoding scheme gives
  it. So \<open>str.encode()\<close> has to check that the text has no surrogate, and
  \<open>bytes.decode()\<close> that the bytes are well-formed UTF-8. A string that is
  well-formed in neither way stands for no \<open>str\<close>, and is not encoded either.
\<close>

datatype val =
    VNone
  | VStr string
  | VInt int
  | VList "val list"
  | VDict "(string \<times> val) list"

type_synonym dict = "(string \<times> val) list"

datatype error =
    KeyError string
  | AttributeError string
  | TypeError string
  | NameError string
  | UnicodeEncodeError
  | UnicodeDecodeError
  | FileNotFoundError string
  | SystemExit "string option"

definition bnd :: "error + 'a \<Rightarrow> ('a \<Rightarrow> error + 'b) \<Rightarrow> error + 'b" where
  "bnd m f = (case m of Inl e \<Rightarrow> Inl e | Inr x \<Rightarrow> f x)"

definition contains :: "dict \<Rightarrow> string \<Rightarrow> bool" where
  \<comment> \<open>\<open>k in d\<close>\<close>
  "contains d k = (map_of d k \<noteq> None)"

definition getitem :: "dict \<Rightarrow> string \<Rightarrow> error + val" where
  \<comment> \<open>\<open>d[k]\<close>, raising \<open>KeyError\<close> on a missing key\<close>
  "getitem d k = (case map_of d k of None \<Rightarrow> Inl (KeyError k) | Some v \<Rightarrow> Inr v)"

definition setitem :: "dict \<Rightarrow> string \<Rightarrow> val \<Rightarrow> dict" where
  \<comment> \<open>\<open>d[k] = v\<close>: an existing key keeps its place, a new key goes last\<close>
  "setitem d k v = AList.update k v d"

fun dict_ior :: "dict \<Rightarrow> dict \<Rightarrow> dict" where
  \<comment> \<open>\<open>d |= e\<close>\<close>
  "dict_ior d [] = d"
| "dict_ior d ((k, v) # e) = dict_ior (setitem d k v) e"

fun truthy :: "val \<Rightarrow> bool" where
  "truthy VNone = False"
| "truthy (VStr s) = (s \<noteq> [])"
| "truthy (VInt i) = (i \<noteq> 0)"
| "truthy (VList xs) = (xs \<noteq> [])"
| "truthy (VDict d) = (d \<noteq> [])"

fun is_mapping :: "val \<Rightarrow> bool" where
  "is_mapping (VDict d) = True"
| "is_mapping v = False"

fun wf_val :: "val \<Rightarrow> bool" where
  "wf_val (VList xs) = (\<forall>x \<in> set xs. wf_val x)"
| "wf_val (VDict d) = (distinct (map fst d) \<and> (\<forall>v \<in> snd ` set d. wf_val v))"
| "wf_val v = True"

fun lookup_path :: "val \<Rightarrow> string list \<Rightarrow> val option" where
  \<comment> \<open>\<open>v[k1][k2]...\<close> through nested mappings\<close>
  "lookup_path v [] = Some v"
| "lookup_path (VDict d) (k # ks) =
     (case map_of d k of None \<Rightarrow> None | Some w \<Rightarrow> lookup_path w ks)"
| "lookup_path v (k # ks) = None"

section \<open>Text operations of the Python library\<close>

definition lower_char :: "char \<Rightarrow> char" where
  "lower_char c =
     (if (65::nat) \<le> of_char c \<and> of_char c \<le> (90::nat)
      then char_of (of_char c + (32::nat)) else c)"

definition lower :: "string \<Rightarrow> string" where
  \<comment> \<open>\<open>str.lower()\<close> on the ASCII letters. No character outside ASCII lowers to one of
      the letters of the license codes (the Kelvin sign lowers to \<open>k\<close>, dotted capital I
      to two characters), so the comparison in \<open>parseLicense\<close> is decided as in Python.\<close>
  "lower s = map lower_char s"

definition str_lower :: "val \<Rightarrow> error + string" where
  \<comment> \<open>\<open>v.lower()\<close>: only a \<open>str\<close> has the method\<close>
  "str_lower v = (case v of VStr s \<Rightarrow> Inr (lower s) | _ \<Rightarrow> Inl (AttributeError ''lower''))"

definition is_space :: "char \<Rightarrow> bool" where
  \<comment> \<open>the ASCII characters that \<open>str.split()\<close> treats as white space\<close>
  "is_space c = (c \<in> set [CHR '' '', CHR 0x09, CHR 0x0A, CHR 0x0B, CHR 0x0C, CHR 0x0D,
                           CHR 0x1C, CHR 0x1D, CHR 0x1E, CHR 0x1F])"

fun split_ws :: "string \<Rightarrow> string \<Rightarrow> string list" where
  \<comment> \<open>\<open>s.split()\<close>, with the word read so far as first argument\<close>
  "split_ws w [] = (if w = [] then [] else [w])"
| "split_ws w (c # cs) =
     (if is_space c then (if w = [] then split_ws [] cs else w # split_ws [] cs)
      else split_ws (w @ [c]) cs)"

definition str_split :: "val \<Rightarrow> error + val" where
  "str_split v =
     (case v of VStr s \<Rightarrow> Inr (VList (map VStr (split_ws [] s)))
      | _ \<Rightarrow> Inl (AttributeError ''split''))"

definition digit_char :: "nat \<Rightarrow> char" where
  "digit_char n = char_of (48 + n mod 10)"

fun dec :: "nat \<Rightarrow> string" where
  "dec n = (if n < 10 then [digit_char n] else dec (n div 10) @ [digit_char (n mod 10)])"

definition dec2 :: "nat \<Rightarrow> string" where
  \<comment> \<open>two digits, zero padded\<close>
  "dec2 n = (if n < 10 then CHR ''0'' # dec n else dec n)"

record date =
  year :: nat
  month :: nat
  day :: nat

definition strftime_Y :: "date \<Rightarrow> string" where
  \<comment> \<open>\<open>strftime('%Y')\<close>: the year in decimal (four digits from the year 1000 on)\<close>
  "strftime_Y d = dec (year d)"

definition strftime_Ymd :: "date \<Rightarrow> string" where
  \<comment> \<open>\<open>strftime('%Y/%m/%d')\<close>\<close>
  "strftime_Ymd d = dec (year d) @ ''/'' @ dec2 (month d) @ ''/'' @ dec2 (day d)"

text \<open>
  Two library calls are parameters of the model: \<open>dateparser.parse\<close>, a lenient
  natural-language date parser that returns \<open>None\<close> for a text it cannot read, and the
  text that an f-string gives for a value that is not a \<open>str\<close>.
\<close>

record lib =
  dateparser_parse :: "string \<Rightarrow> date option"
  format_other :: "val \<Rightarrow> string"

definition fstr :: "lib \<Rightarrow> val \<Rightarrow> string" where
  \<comment> \<open>\<open>f'{v}'\<close>\<close>
  "fstr L v = (case v of VStr s \<Rightarrow> s | _ \<Rightarrow> format_other L v)"

definition parse_date :: "lib \<Rightarrow> val \<Rightarrow> error + date" where
  \<comment> \<open>\<open>dateparser.parse(v)\<close> followed by a method call on the result: the parser
      rejects anything but a text, and \<open>None\<close> has no \<open>strftime\<close>\<close>
  "parse_date L v =
     (case v of
        VStr s \<Rightarrow> (case dateparser_parse L s of
                     None \<Rightarrow> Inl (AttributeError ''strftime'')
                   | Some d \<Rightarrow> Inr d)
      | _ \<Rightarrow> Inl (TypeError ''Input type must be str''))"

section \<open>metadata.py\<close>

definition rights_entry :: "string \<Rightarrow> string \<Rightarrow> val" where
  "rights_entry license url = VDict
     [(''@schemeURI'', VStr ''https://spdx.org/licenses/''),
      (''@rightsIdentifierScheme'', VStr ''SPDX''),
      (''@rightsIdentifier'', VStr license),
      (''@rightsURI'', VStr url)]"

definition license_table :: "error \<Rightarrow> dict \<Rightarrow> error + val" where
  \<comment> \<open>the \<open>match\<close> statement of \<open>parseLicense\<close>; \<open>unknown\<close> is what the last
      case raises\<close>
  "license_table unknown data_post =
     bnd (getitem data_post ''license'') (\<lambda>l. bnd (str_lower l) (\<lambda>c.
       if c = ''mit'' then Inr (rights_entry ''MIT'' ''https://spdx.org/licenses/MIT.html'')
       else if c = ''cc0'' then
         Inr (rights_entry ''CC0-1.0'' ''https://creativecommons.org/publicdomain/zero/1.0/'')
       else if c = ''cc-by4'' then
         Inr (rights_entry ''CC-BY-4.0'' ''https://creativecommons.org/licenses/by/4.0/'')
       else if c = ''gpl3'' then
         Inr (rights_entry ''GPL-3.0-only'' ''https://opensource.org/licenses/GPL-3.0'')
       else Inl unknown))"

definition parseLicense :: "dict \<Rightarrow> error + val" where
  \<comment> \<open>\<open>doijekyll/metadata.py\<close>. The module does not import \<open>sys\<close>, so the
      \<open>sys.exit()\<close> of the last case raises \<open>NameError\<close>.\<close>
  "parseLicense data_post =
     (if \<not> contains data_post ''license'' then Inr VNone
      else license_table (NameError ''sys'') data_post)"

definition parseLicense_script :: "dict \<Rightarrow> error + val" where
  \<comment> \<open>\<open>doi-jekyll.py\<close>, which imports \<open>sys\<close>: \<open>sys.exit()\<close> raises \<open>SystemExit\<close>\<close>
  "parseLicense_script data_post =
     (if \<not> contains data_post ''license'' then Inr VNone
      else license_table (SystemExit None) data_post)"

definition getMdSchema :: "dict" where
  "getMdSchema =
     [(''@xmlns:xsi'', VStr ''http://www.w3.org/2001/XMLSchema-instance''),
      (''@xmlns'', VStr ''http://datacite.org/schema/kernel-4''),
      (''@xsi:schemaLocation'', VStr
         ''http://datacite.org/schema/kernel-4 http://schema.datacite.org/meta/kernel-4/metadata.xsd'')]"

definition getMdIdentifier :: "dict \<Rightarrow> error + dict" where
  "getMdIdentifier data_post =
     bnd (getitem data_post ''doi'') (\<lambda>doi.
       Inr [(''identifier'', VDict [(''@identifierType'', VStr ''DOI''), (''#text'', doi)])])"

definition getMdCreators :: "lib \<Rightarrow> dict \<Rightarrow> dict \<Rightarrow> error + dict" where
  "getMdCreators L data_blog data_author =
     bnd (getitem data_author ''name'') (\<lambda>name.
     bnd (getitem data_author ''first_name'') (\<lambda>first_name.
     bnd (getitem data_author ''last_name'') (\<lambda>last_name.
     bnd (getitem data_author ''orcid_id'') (\<lambda>orcid_id.
     bnd (getitem data_blog ''affiliation'') (\<lambda>affiliation.
       Inr [(''creators'', VDict
         [(''creator'', VDict
           [(''creatorName'', VDict [(''@nameType'', VStr ''Personal''), (''#text'', name)]),
            (''givenName'', first_name),
            (''familyName'', last_name),
            (''nameIdentifier'', VDict
               [(''@nameIdentifierScheme'', VStr ''ORCID''),
                (''@schemeURI'', VStr ''https://orcid.org''),
                (''#text'', VStr (''https://orcid.org/'' @ fstr L orcid_id))]),
            (''affiliation'', affiliation)])])])))))"

definition getMdTitles :: "dict \<Rightarrow> error + dict" where
  "getMdTitles data_post =
     bnd (getitem data_post ''title'') (\<lambda>title.
       Inr [(''titles'', VDict
         [(''title'', VDict [(''@xml:lang'', VStr ''en''), (''#text'', title)])])])"

definition getMdPublicationYear :: "lib \<Rightarrow> dict \<Rightarrow> error + dict" where
  "getMdPublicationYear L data_post =
     bnd (getitem data_post ''date'') (\<lambda>d. bnd (parse_date L d) (\<lambda>dt.
       Inr [(''publicationYear'', VStr (strftime_Y dt))]))"

definition getMdPublisher :: "dict \<Rightarrow> error + dict" where
  "getMdPublisher data_blog =
     bnd (getitem data_blog ''publisher'') (\<lambda>p. Inr [(''publisher'', p)])"

definition getMdResourceType :: "dict" where
  "getMdResourceType =
     [(''resourceType'', VDict
        [(''@resourceTypeGeneral'', VStr ''Text''), (''#text'', VStr ''BlogPosting'')])]"

definition getMdLanguage :: "dict" where
  "getMdLanguage = [(''language'', VStr ''en'')]"

definition getMdFormats :: "dict" where
  "getMdFormats = [(''formats'', VDict [(''format'', VStr ''HTML'')])]"

definition getMdVersion :: "dict \<Rightarrow> dict" where
  "getMdVersion data_post =
     [(''version'', (case map_of data_post ''version'' of Some v \<Rightarrow> v | None \<Rightarrow> VStr ''1.0''))]"

definition getMdRightsList :: "dict \<Rightarrow> error + dict" where
  "getMdRightsList data_post =
     bnd (parseLicense data_post) (\<lambda>r. Inr [(''rightsList'', VDict [(''rights'', r)])])"

definition getMdRightsList_script :: "dict \<Rightarrow> error + dict" where
  "getMdRightsList_script data_post =
     bnd (parseLicense_script data_post) (\<lambda>r. Inr [(''rightsList'', VDict [(''rights'', r)])])"

definition getMdSubjects :: "dict \<Rightarrow> error + dict" where
  "getMdSubjects data_post =
     bnd (getitem data_post ''tags'') (\<lambda>t. bnd (str_split t) (\<lambda>ws.
       Inr [(''subjects'', VDict [(''subject'', ws)])]))"

definition getMdDescriptions :: "dict \<Rightarrow> dict" where
  "getMdDescriptions data_post =
     (case map_of data_post ''abstract'' of
        None \<Rightarrow> []
      | Some a \<Rightarrow>
          [(''descriptions'', VDict
             [(''description'', VDict [(''@descriptionType'', VStr ''Abstract''), (''#text'', a)])])])"

definition getMdRelToBlog :: "dict \<Rightarrow> dict" where
  "getMdRelToBlog data_blog =
     (case map_of data_blog ''doi'' of
        Some d \<Rightarrow>
          [(''relatedIdentifiers'', VDict
             [(''relatedIdentifier'', VDict
                [(''@relatedIdentifierType'', VStr ''DOI''),
                 (''@relationType'', VStr ''IsPartOf''),
                 (''#text'', d)])])]
      | None \<Rightarrow> [])"

definition addAdditionalMetadata :: "val \<Rightarrow> val" where
  "addAdditionalMetadata additional_metadata =
     (if truthy additional_metadata then additional_metadata else VDict [])"

text \<open>
  Modelled from the spec: \<open>mergedeep.merge\<close>, the third-party deep merge that
  \<open>assembleMetadata\<close> imports, is not part of the sources. The spec describes it as a
  recursive structural merge in which nested mappings merge key by key and the later
  source overwrites everything else; the library does this in a loop over the keys of
  the source, recursing where both sides hold a mapping, replacing the value otherwise
  and appending a key the destination does not have. Values are trees here, so the deep
  copy that the library takes of an inserted value is the value itself.
\<close>

function deepmerge :: "dict \<Rightarrow> dict \<Rightarrow> dict" where
  "deepmerge dst [] = dst"
| "deepmerge dst ((key, v) # src) =
     deepmerge
       (case map_of dst key of
          None \<Rightarrow> setitem dst key v
        | Some old \<Rightarrow>
            (case old of
               VDict d \<Rightarrow>
                 (case v of
                    VDict s \<Rightarrow> setitem dst key (VDict (deepmerge d s))
                  | _ \<Rightarrow> setitem dst key v)
             | _ \<Rightarrow> setitem dst key v))
       src"
  by pat_completeness auto
termination
  by (relation "measure (\<lambda>(dst, src). size_list (size_prod (\<lambda>_. 0) size) src)") auto

definition merge :: "dict \<Rightarrow> val \<Rightarrow> error + dict" where
  \<comment> \<open>\<open>merge(data, source)\<close>: the source has to be a mapping. For any other value
      that is not empty the library fails while it reads the keys.\<close>
  "merge data source =
     (case source of
        VDict src \<Rightarrow> Inr (deepmerge data src)
      | _ \<Rightarrow> Inl (TypeError ''merge source is not a mapping''))"

definition fixed_sections :: "lib \<Rightarrow> dict \<Rightarrow> dict \<Rightarrow> dict \<Rightarrow> error + dict" where
  \<comment> \<open>the \<open>data |= ...\<close> lines of \<open>assembleMetadata\<close>, in their order\<close>
  "fixed_sections L data_blog data_post data_author =
     bnd (getMdIdentifier data_post) (\<lambda>ident.
     bnd (getMdCreators L data_blog data_author) (\<lambda>creators.
     bnd (getMdTitles data_post) (\<lambda>titles.
     bnd (getMdPublicationYear L data_post) (\<lambda>pubyear.
     bnd (getMdPublisher data_blog) (\<lambda>publisher.
     bnd (getMdRightsList data_post) (\<lambda>rights.
     bnd (getMdSubjects data_post) (\<lambda>subjects.
       Inr (foldl dict_ior []
         [getMdSchema, ident, creators, titles, pubyear, publisher, getMdResourceType,
          getMdLanguage, getMdFormats, getMdVersion data_post, rights, subjects,
          getMdDescriptions data_post, getMdRelToBlog data_blog]))))))))"

definition assembleMetadata :: "lib \<Rightarrow> dict \<Rightarrow> dict \<Rightarrow> dict \<Rightarrow> val \<Rightarrow> error + val" where
  "assembleMetadata L data_blog data_post data_author additional_metadata =
     bnd (fixed_sections L data_blog data_post data_author) (\<lambda>data.
     bnd (merge data (addAdditionalMetadata additional_metadata)) (\<lambda>data1.
     bnd (case map_of data_post ''doi-additional-metadata'' of
            None \<Rightarrow> Inr data1
          | Some m \<Rightarrow> merge data1 (addAdditionalMetadata m)) (\<lambda>data2.
       Inr (VDict [(''resource'', VDict data2)]))))"

section \<open>doijekyll.py and doi-jekyll.py: identifier and permalink\<close>

type_synonym bytes = "nat list"

definition cont :: "nat \<Rightarrow> bool" where
  \<comment> \<open>a UTF-8 continuation byte\<close>
  "cont b = (128 \<le> b \<and> b < 192)"

definition lead3 :: "nat \<Rightarrow> nat \<Rightarrow> bool" where
  \<comment> \<open>the second byte of a three-byte sequence: no overlong form, no surrogate\<close>
  "lead3 b c1 = (if b = 224 then 160 \<le> c1 \<and> c1 < 192
                 else if b = 237 then 128 \<le> c1 \<and> c1 < 160 else cont c1)"

definition lead4 :: "nat \<Rightarrow> nat \<Rightarrow> bool" where
  \<comment> \<open>the second byte of a four-byte sequence: no overlong form, at most U+10FFFF\<close>
  "lead4 b c1 = (if b = 240 then 144 \<le> c1 \<and> c1 < 192
                 else if b = 244 then 128 \<le> c1 \<and> c1 < 144 else cont c1)"

fun utf8_valid :: "bytes \<Rightarrow> bool" where
  "utf8_valid [] = True"
| "utf8_valid [b] = (b < 128)"
| "utf8_valid [b, c1] = (b < 128 \<and> c1 < 128 \<or> 194 \<le> b \<and> b < 224 \<and> cont c1)"
| "utf8_valid [b, c1, c2] =
     (if b < 128 then utf8_valid [c1, c2]
      else if 194 \<le> b \<and> b < 224 then cont c1 \<and> c2 < 128
      else 224 \<le> b \<and> b < 240 \<and> lead3 b c1 \<and> cont c2)"
| "utf8_valid (b # c1 # c2 # c3 # bs) =
     (if b < 128 then utf8_valid (c1 # c2 # c3 # bs)
      else if 194 \<le> b \<and> b < 224 then cont c1 \<and> utf8_valid (c2 # c3 # bs)
      else if 224 \<le> b \<and> b < 240 then
        lead3 b c1 \<and> cont c2 \<and> utf8_valid (c3 # bs)
      else 240 \<le> b \<and> b < 245 \<and> lead4 b c1 \<and> cont c2 \<and> cont c3 \<and> utf8_valid bs)"

definition utf8_bytes :: "string \<Rightarrow> bytes" where
  \<comment> \<open>the bytes that stand for the text\<close>
  "utf8_bytes s = map of_char s"

definition encodable :: "string \<Rightarrow> bool" where
  \<comment> \<open>the text can be encoded as UTF-8: it holds no lone surrogate\<close>
  "encodable s = utf8_valid (utf8_bytes s)"

definition str_encode :: "string \<Rightarrow> error + bytes" where
  \<comment> \<open>\<open>s.encode()\<close>, which raises on a text with a lone surrogate\<close>
  "str_encode s = (if encodable s then Inr (utf8_bytes s) else Inl UnicodeEncodeError)"

definition bytes_decode :: "bytes \<Rightarrow> error + string" where
  \<comment> \<open>\<open>b.decode()\<close>\<close>
  "bytes_decode bs = (if utf8_valid bs then Inr (map char_of bs) else Inl UnicodeDecodeError)"

definition b64_alphabet :: "string" where
  "b64_alphabet = ''ABCDEFGHIJKLMNOPQRSTUVWXYZabcdefghijklmnopqrstuvwxyz0123456789+/''"

definition b64_char :: "nat \<Rightarrow> nat" where
  "b64_char i = of_char (b64_alphabet ! (i mod 64))"

fun b64encode :: "bytes \<Rightarrow> bytes" where
  \<comment> \<open>\<open>base64.b64encode\<close>: three bytes give four characters, \<open>=\<close> pads the end\<close>
  "b64encode [] = []"
| "b64encode [a] = [b64_char (a div 4), b64_char (a mod 4 * 16), 61, 61]"
| "b64encode [a, b] =
     [b64_char (a div 4), b64_char (a mod 4 * 16 + b div 16), b64_char (b mod 16 * 4), 61]"
| "b64encode (a # b # c # bs) =
     [b64_char (a div 4), b64_char (a mod 4 * 16 + b div 16),
      b64_char (b mod 16 * 4 + c div 64), b64_char (c mod 64)] @ b64encode bs"

definition genDoi :: "string \<Rightarrow> string \<Rightarrow> string \<Rightarrow> error + string" where
  "genDoi title base prefix =
     bnd (str_encode title) (\<lambda>encoded.
       let b64 = b64encode encoded;
           b64_short = take 6 b64
       in bnd (bytes_decode b64_short) (\<lambda>suffix. Inr (prefix @ ''/'' @ base @ ''-'' @ suffix)))"

definition rstrip_slash :: "string \<Rightarrow> string" where
  \<comment> \<open>\<open>s.rstrip('/')\<close>\<close>
  "rstrip_slash s = rev (dropWhile (\<lambda>c. c = CHR ''/'') (rev s))"

definition str_rstrip_slash :: "val \<Rightarrow> error + string" where
  "str_rstrip_slash v =
     (case v of VStr s \<Rightarrow> Inr (rstrip_slash s) | _ \<Rightarrow> Inl (AttributeError ''rstrip''))"

fun path_parts :: "string \<Rightarrow> string \<Rightarrow> string list" where
  \<comment> \<open>the components of a POSIX path between slashes, with the component read so far
      as first argument; \<open>PurePath\<close> drops empty and \<open>.\<close> components\<close>
  "path_parts w [] = (if w = [] \<or> w = ''.'' then [] else [w])"
| "path_parts w (c # cs) =
     (if c = CHR ''/'' then (if w = [] \<or> w = ''.'' then path_parts [] cs else w # path_parts [] cs)
      else path_parts (w @ [c]) cs)"

definition purepath_name :: "string \<Rightarrow> string" where
  \<comment> \<open>\<open>PurePath(p).name\<close>\<close>
  "purepath_name p = (case path_parts [] p of [] \<Rightarrow> [] | ps \<Rightarrow> last ps)"

definition rfind_dot :: "string \<Rightarrow> nat option" where
  \<comment> \<open>\<open>name.rfind('.')\<close>, \<open>None\<close> for -1\<close>
  "rfind_dot name =
     (if CHR ''.'' \<in> set name
      then Some (length name - 1 - length (takeWhile (\<lambda>c. c \<noteq> CHR ''.'') (rev name)))
      else None)"

definition purepath_stem :: "string \<Rightarrow> string" where
  \<comment> \<open>\<open>PurePath(p).stem\<close>: the name without its last suffix; a leading or a trailing
      dot starts no suffix\<close>
  "purepath_stem p =
     (let name = purepath_name p
      in case rfind_dot name of
           None \<Rightarrow> name
         | Some i \<Rightarrow> if 0 < i \<and> i < length name - 1 then take i name else name)"

text \<open>
  The regular expression \<open>(\d{4}-\d{1,2}-\d{1,2}-)(.*)\<close> as a backtracking matcher: a
  piece maps a text to the ways of matching a prefix of it, each with the rest, in the
  order in which the engine tries them. \<open>\d\<close> is an ASCII digit here.
\<close>

type_synonym piece = "string \<Rightarrow> (string \<times> string) list"

definition is_digit :: "char \<Rightarrow> bool" where
  "is_digit c = ((48::nat) \<le> of_char c \<and> of_char c \<le> (57::nat))"

definition digits_n :: "nat \<Rightarrow> piece" where
  \<comment> \<open>\<open>\d{n}\<close>\<close>
  "digits_n n s =
     (if n \<le> length s \<and> list_all is_digit (take n s) then [(take n s, drop n s)] else [])"

definition digits_1_2 :: "piece" where
  \<comment> \<open>\<open>\d{1,2}\<close>, greedy: two digits are tried before one\<close>
  "digits_1_2 s = digits_n 2 s @ digits_n 1 s"

definition dash :: "piece" where
  "dash s = (case s of [] \<Rightarrow> [] | c # r \<Rightarrow> if c = CHR ''-'' then [([c], r)] else [])"

definition seq :: "piece \<Rightarrow> piece \<Rightarrow> piece" where
  "seq p q s = concat (map (\<lambda>(a, r). map (\<lambda>(b, r'). (a @ b, r')) (q r)) (p s))"

definition date_prefix :: "piece" where
  "date_prefix = seq (digits_n 4) (seq dash (seq digits_1_2 (seq dash (seq digits_1_2 dash))))"

definition match_here :: "string \<Rightarrow> (string \<times> string) option" where
  \<comment> \<open>groups 1 and 2 of a match that starts here; \<open>.\<close> stops at a line feed\<close>
  "match_here s =
     (case date_prefix s of
        [] \<Rightarrow> None
      | (g1, r) # _ \<Rightarrow> Some (g1, takeWhile (\<lambda>c. c \<noteq> CHR 0x0A) r))"

fun re_search :: "string \<Rightarrow> (string \<times> string) option" where
  \<comment> \<open>\<open>re.search\<close>: the leftmost match\<close>
  "re_search s =
     (case match_here s of
        Some m \<Rightarrow> Some m
      | None \<Rightarrow> (case s of [] \<Rightarrow> None | c # r \<Rightarrow> re_search r))"

definition genPermalink :: "lib \<Rightarrow> dict \<Rightarrow> string \<Rightarrow> dict \<Rightarrow> error + string" where
  \<comment> \<open>\<open>doijekyll/doijekyll.py\<close>: the match is computed and not used\<close>
  "genPermalink L data_blog post_filename data_post =
     bnd (getitem data_blog ''url'') (\<lambda>u. bnd (str_rstrip_slash u) (\<lambda>url_base.
     bnd (getitem data_post ''date'') (\<lambda>d. bnd (parse_date L d) (\<lambda>post_date_raw.
       let post_date_formatted = strftime_Ymd post_date_raw;
           post_filename_base = purepath_stem post_filename;
           post_filename_matched = re_search post_filename_base;
           post_filename_clean = ''asf''
       in Inr (url_base @ ''/'' @ post_date_formatted @ ''/'' @ post_filename_clean @ ''.html'')))))"

definition genPermalink_script :: "lib \<Rightarrow> dict \<Rightarrow> string \<Rightarrow> dict \<Rightarrow> error + string" where
  \<comment> \<open>\<open>doi-jekyll.py\<close>: \<open>re.search(...).group(2)\<close>, and \<open>None\<close> has no \<open>group\<close>\<close>
  "genPermalink_script L data_blog post_filename data_post =
     bnd (getitem data_blog ''url'') (\<lambda>u. bnd (str_rstrip_slash u) (\<lambda>url_base.
     bnd (getitem data_post ''date'') (\<lambda>d. bnd (parse_date L d) (\<lambda>post_date_raw.
       let post_date_formatted = strftime_Ymd post_date_raw;
           post_filename_base = purepath_stem post_filename
       in case re_search post_filename_base of
            None \<Rightarrow> Inl (AttributeError ''group'')
          | Some (g1, post_filename_clean) \<Rightarrow>
              Inr (url_base @ ''/'' @ post_date_formatted @ ''/'' @ post_filename_clean
                   @ ''.html'')))))"

section \<open>doi-jekyll.py: the assembler without override layers\<close>

definition assembleMetadata_script :: "lib \<Rightarrow> dict \<Rightarrow> dict \<Rightarrow> dict \<Rightarrow> error + val" where
  "assembleMetadata_script L data_blog data_post data_author =
     bnd (getMdIdentifier data_post) (\<lambda>ident.
     bnd (getMdCreators L data_blog data_author) (\<lambda>creators.
     bnd (getMdTitles data_post) (\<lambda>titles.
     bnd (getMdPublicationYear L data_post) (\<lambda>pubyear.
     bnd (getMdPublisher data_blog) (\<lambda>publisher.
     bnd (getMdRightsList_script data_post) (\<lambda>rights.
     bnd (getMdSubjects data_post) (\<lambda>subjects.
       Inr (VDict [(''resource'', VDict (foldl dict_ior []
         [getMdSchema, ident, creators, titles, pubyear, publisher, getMdResourceType,
          getMdLanguage, getMdFormats, getMdVersion data_post, rights, subjects,
          getMdDescriptions data_post]))]))))))))"

section \<open>The workflow\<close>

text \<open>
  \<open>main\<close> reads three documents, changes the post record and talks to the registry.
  The model threads a state through it: the post record and the trace of what the
  run has done to the outside (what it printed, the requests it sent, the file it
  wrote). The documents arrive parsed; the author file, the XML serialiser, the
  registry and the writer of the post file are functions of the world the run takes
  place in. Log lines are not part of the trace. The assembler is a function of its
  arguments; the note that \<open>getMdDescriptions\<close> prints for a post without abstract
  is put into the trace where \<open>main\<close> of \<open>doi-jekyll.py\<close> has assembled the record.
\<close>

record args =
  user :: "string option"
  password :: "string option"
  force :: bool
  dry_run :: bool
  skip_url :: bool
  author_file :: "string option"
  authors_dir :: string
  blogpost_name :: string

datatype author_source = Author_file string | Author_in_dir string string

datatype event =
    Print string
  | Put string string
  | Dump dict string

record world =
  libs :: lib
  frontmatter_load :: "author_source \<Rightarrow> error + dict"
  xmltodict_unparse :: "val \<Rightarrow> error + string"
  requests_put :: "string \<Rightarrow> string \<Rightarrow> error + bool"
  frontmatter_dump :: "dict \<Rightarrow> string \<Rightarrow> error + unit"

record st =
  raw_data_post :: dict
  trace :: "event list"

type_synonym 'a prog = "st \<Rightarrow> (error + 'a) \<times> st"

definition ret :: "'a \<Rightarrow> 'a prog" where
  "ret x = (\<lambda>s. (Inr x, s))"

definition raise :: "error \<Rightarrow> 'a prog" where
  "raise e = (\<lambda>s. (Inl e, s))"

definition lift :: "error + 'a \<Rightarrow> 'a prog" where
  "lift r = (\<lambda>s. (r, s))"

definition seqm :: "'a prog \<Rightarrow> ('a \<Rightarrow> 'b prog) \<Rightarrow> 'b prog" where
  "seqm m f = (\<lambda>s. case m s of (Inl e, s') \<Rightarrow> (Inl e, s') | (Inr x, s') \<Rightarrow> f x s')"

definition emit :: "event \<Rightarrow> unit prog" where
  "emit ev = (\<lambda>s. (Inr (), s\<lparr>trace := trace s @ [ev]\<rparr>))"

definition get_post :: "dict prog" where
  "get_post = (\<lambda>s. (Inr (raw_data_post s), s))"

definition set_post_item :: "string \<Rightarrow> val \<Rightarrow> unit prog" where
  "set_post_item k v = (\<lambda>s. (Inr (), s\<lparr>raw_data_post := setitem (raw_data_post s) k v\<rparr>))"

definition parseCredentials :: "string option \<Rightarrow> string option \<Rightarrow> (string \<times> string) prog" where
  "parseCredentials username passwd =
     (case username of
        None \<Rightarrow>
          seqm (emit (Print ''Please provide DataCite username (--user or  $DJ_DATACITE_USER)''))
            (\<lambda>_. raise (SystemExit None))
      | Some u \<Rightarrow>
          (case passwd of
             None \<Rightarrow>
               seqm (emit (Print
                 ''Please provide DataCite password (--password or $DJ_DATACITE_PASSWORD)''))
                 (\<lambda>_. raise (SystemExit None))
           | Some pw \<Rightarrow> ret (u, pw)))"

definition collectBlogData :: "val \<Rightarrow> error + dict" where
  \<comment> \<open>on the parsed configuration: \<open>{**all_yaml['doi_jekyll'], 'url': all_yaml['url']}\<close>\<close>
  "collectBlogData all_yaml =
     (case all_yaml of
        VDict y \<Rightarrow>
          bnd (getitem y ''doi_jekyll'') (\<lambda>doi_yaml.
            case doi_yaml of
              VDict dy \<Rightarrow> bnd (getitem y ''url'') (\<lambda>u. Inr (setitem dy ''url'' u))
            | _ \<Rightarrow> Inl (TypeError ''not a mapping''))
      | _ \<Rightarrow> Inl (TypeError ''not subscriptable''))"

definition collectAuthorData :: "world \<Rightarrow> val \<Rightarrow> args \<Rightarrow> error + dict" where
  "collectAuthorData W authorname a =
     (case author_file a of
        Some f \<Rightarrow>
          if f \<noteq> [] then frontmatter_load W (Author_file f)
          else bnd (str_lower authorname) (\<lambda>n. frontmatter_load W (Author_in_dir (authors_dir a) n))
      | None \<Rightarrow>
          bnd (str_lower authorname) (\<lambda>n. frontmatter_load W (Author_in_dir (authors_dir a) n)))"

definition doi_exists_message :: "lib \<Rightarrow> val \<Rightarrow> string" where
  "doi_exists_message L doi =
     ''DOI already exists for blog post ('' @ fstr L doi @ ''). Launch with '' @ [CHR 0x22]
     @ ''-f'' @ [CHR 0x22] @ '' to force overwrite.''"

definition check_existing_doi :: "world \<Rightarrow> args \<Rightarrow> unit prog" where
  \<comment> \<open>\<open>if 'doi' in raw_data_post and not args.force: sys.exit(...)\<close>\<close>
  "check_existing_doi W a =
     seqm get_post (\<lambda>p.
       if contains p ''doi'' \<and> \<not> force a
       then seqm (lift (getitem p ''doi'')) (\<lambda>doi.
              raise (SystemExit (Some (doi_exists_message (libs W) doi))))
       else ret ())"

definition genDoi_call :: "lib \<Rightarrow> val \<Rightarrow> val \<Rightarrow> val \<Rightarrow> error + string" where
  \<comment> \<open>\<open>genDoi\<close> on front-matter values: only a text has \<open>encode\<close>, the f-string
      takes base and prefix as they are\<close>
  "genDoi_call L title base prefix =
     (case title of
        VStr t \<Rightarrow> genDoi t (fstr L base) (fstr L prefix)
      | _ \<Rightarrow> Inl (AttributeError ''encode''))"

definition assign_doi :: "world \<Rightarrow> dict \<Rightarrow> unit prog" where
  \<comment> \<open>\<open>raw_data_post['doi'] = genDoi(title=..., base=..., prefix=...)\<close>\<close>
  "assign_doi W raw_data_blog =
     seqm get_post (\<lambda>p.
     seqm (lift (getitem p ''title'')) (\<lambda>title.
     seqm (lift (getitem raw_data_blog ''suffix_base'')) (\<lambda>base.
     seqm (lift (getitem raw_data_blog ''prefix'')) (\<lambda>prefix.
     seqm (lift (genDoi_call (libs W) title base prefix)) (\<lambda>doi.
       set_post_item ''doi'' (VStr doi))))))"

definition assembleMetadata_call3 :: "lib \<Rightarrow> dict \<Rightarrow> dict \<Rightarrow> dict \<Rightarrow> error + val" where
  \<comment> \<open>the call in \<open>main\<close> of \<open>doijekyll/doijekyll.py\<close>: it passes \<open>data_blog\<close>,
      \<open>data_post\<close> and \<open>data_author\<close> to \<open>metadata.assembleMetadata\<close>, which has a
      fourth parameter \<open>additional_metadata\<close> without a default, so the call raises
      before the function body runs\<close>
  "assembleMetadata_call3 L data_blog data_post data_author =
     Inl (TypeError ''assembleMetadata() missing 1 required positional argument'')"

definition registerMetadata :: "world \<Rightarrow> dict \<Rightarrow> string \<Rightarrow> val \<Rightarrow> bool prog" where
  \<comment> \<open>the result is the \<open>ok\<close> of the response\<close>
  "registerMetadata W data_blog dj_data_xml doi =
     seqm (lift (getitem data_blog ''provider_url'')) (\<lambda>purl.
       let url = fstr (libs W) purl @ ''/metadata/'' @ fstr (libs W) doi
       in seqm (emit (Put url dj_data_xml)) (\<lambda>_. lift (requests_put W url dj_data_xml)))"

definition url_payload :: "string \<Rightarrow> string \<Rightarrow> string" where
  \<comment> \<open>the dedented template, for a DOI and a URL without line breaks; the eight
      blanks before the closing quotes of the template stay at the end\<close>
  "url_payload doi url =
     ''#Content-Type:text/plain;charset=UTF-8'' @ [CHR 0x0A] @ ''doi= '' @ doi @ [CHR 0x0A]
     @ ''url= '' @ url @ ''        ''"

definition registerUrl ::
  "(lib \<Rightarrow> dict \<Rightarrow> string \<Rightarrow> dict \<Rightarrow> error + string) \<Rightarrow> world \<Rightarrow> dict \<Rightarrow> string \<Rightarrow> dict \<Rightarrow> val
     \<Rightarrow> bool prog" where
  \<comment> \<open>\<open>permalink\<close> is the \<open>genPermalink\<close> of the file the function stands in\<close>
  "registerUrl permalink W data_blog post_filename data_post doi =
     seqm (lift (permalink (libs W) data_blog post_filename data_post)) (\<lambda>url.
       let data = url_payload (fstr (libs W) doi) url
       in seqm (lift (getitem data_blog ''provider_url'')) (\<lambda>purl.
            let target = fstr (libs W) purl @ ''/doi/'' @ fstr (libs W) doi
            in seqm (emit (Put target data)) (\<lambda>_. lift (requests_put W target data))))"

definition updateBlogpostMarkdown :: "world \<Rightarrow> string \<Rightarrow> val \<Rightarrow> unit prog" where
  \<comment> \<open>the record gets the resolver URL as \<open>doi\<close> and goes to \<open>frontmatter.dump\<close>,
      which writes the post file unless it raises\<close>
  "updateBlogpostMarkdown W post_filename doi =
     seqm (set_post_item ''doi'' (VStr (''https://doi.org/'' @ fstr (libs W) doi)))
       (\<lambda>_. seqm get_post (\<lambda>p.
          seqm (lift (frontmatter_dump W p post_filename))
            (\<lambda>_. emit (Dump p post_filename))))"

definition debug_ok :: "bool prog" where
  \<comment> \<open>\<open>debug.ok\<close>: neither \<open>main\<close> nor its module binds a name \<open>debug\<close>\<close>
  "debug_ok = raise (NameError ''debug'')"

definition main_tail ::
  "(lib \<Rightarrow> dict \<Rightarrow> string \<Rightarrow> dict \<Rightarrow> error + string) \<Rightarrow> world \<Rightarrow> args \<Rightarrow> dict \<Rightarrow> val \<Rightarrow> int prog"
  where
  \<comment> \<open>\<open>main\<close> from the serialisation of the record on, the same text in both files\<close>
  "main_tail permalink W a raw_data_blog dj_data_json =
     seqm (lift (xmltodict_unparse W dj_data_json)) (\<lambda>dj_data_xml.
     seqm (if dry_run a then ret ()
           else
             seqm get_post (\<lambda>p. seqm (lift (getitem p ''doi'')) (\<lambda>doi.
             seqm (registerMetadata W raw_data_blog dj_data_xml doi) (\<lambda>dj_regMd_result.
             seqm debug_ok (\<lambda>ok.
               if \<not> ok then raise (SystemExit None) else ret ()))))) (\<lambda>_.
     seqm (if skip_url a \<or> dry_run a then ret ()
           else
             seqm get_post (\<lambda>p. seqm (lift (getitem p ''doi'')) (\<lambda>doi.
             seqm (registerUrl permalink W raw_data_blog (blogpost_name a) p doi)
               (\<lambda>dj_regUrl_result_ok.
                  if \<not> dj_regUrl_result_ok then raise (SystemExit None) else ret ())))) (\<lambda>_.
     seqm (if dry_run a then ret ()
           else
             seqm get_post (\<lambda>p. seqm (lift (getitem p ''doi'')) (\<lambda>doi.
               updateBlogpostMarkdown W (blogpost_name a) doi))) (\<lambda>_.
     seqm get_post (\<lambda>p. seqm (lift (getitem p ''doi'')) (\<lambda>doi.
     seqm (emit (Print (''Successfully created '' @ fstr (libs W) doi @ '' at DataCite!'')))
       (\<lambda>_. ret 0)))))))"

definition main_head :: "world \<Rightarrow> args \<Rightarrow> val \<Rightarrow> (dict \<times> dict) prog" where
  \<comment> \<open>\<open>main\<close> up to the generated identifier, the same text in both files; the
      result is the blog and the author record\<close>
  "main_head W a all_yaml =
     seqm (parseCredentials (user a) (password a)) (\<lambda>(dc_user, dc_password).
     seqm (lift (collectBlogData all_yaml)) (\<lambda>raw_data_blog.
     seqm get_post (\<lambda>p. seqm (lift (getitem p ''author'')) (\<lambda>authorname.
     seqm (lift (collectAuthorData W authorname a)) (\<lambda>raw_data_author.
     seqm (check_existing_doi W a) (\<lambda>_.
     seqm (assign_doi W raw_data_blog) (\<lambda>_.
       ret (raw_data_blog, raw_data_author))))))))"

definition main :: "world \<Rightarrow> args \<Rightarrow> val \<Rightarrow> int prog" where
  \<comment> \<open>\<open>doijekyll/doijekyll.py\<close>\<close>
  "main W a all_yaml =
     seqm (main_head W a all_yaml) (\<lambda>(raw_data_blog, raw_data_author).
     seqm get_post (\<lambda>p.
     seqm (lift (assembleMetadata_call3 (libs W) raw_data_blog p raw_data_author))
       (\<lambda>dj_data_json. main_tail genPermalink W a raw_data_blog dj_data_json)))"

definition main_script :: "world \<Rightarrow> args \<Rightarrow> val \<Rightarrow> int prog" where
  \<comment> \<open>\<open>doi-jekyll.py\<close>. \<open>getMdDescriptions\<close> is the last section of its assembler,
      so its note is printed exactly when the record is assembled and the post has no
      abstract.\<close>
  "main_script W a all_yaml =
     seqm (main_head W a all_yaml) (\<lambda>(raw_data_blog, raw_data_author).
     seqm get_post (\<lambda>p.
     seqm (lift (assembleMetadata_script (libs W) raw_data_blog p raw_data_author))
       (\<lambda>dj_data_json.
     seqm (if contains p ''abstract'' then ret () else emit (Print ''Note: No abstract given!''))
       (\<lambda>_. main_tail genPermalink_script W a raw_data_blog dj_data_json))))"

definition run :: "'a prog \<Rightarrow> dict \<Rightarrow> (error + 'a) \<times> st" where
  \<comment> \<open>a run on the post that \<open>collectPostData\<close> has read\<close>
  "run m post = m \<lparr>raw_data_post = post, trace = []\<rparr>"

fun is_put :: "event \<Rightarrow> bool" where
  "is_put (Put url body) = True"
| "is_put ev = False"

fun is_dump :: "event \<Rightarrow> bool" where
  "is_dump (Dump p f) = True"
| "is_dump ev = False"

section \<open>Reading an assembled record\<close>

definition section_of :: "error + val \<Rightarrow> string \<Rightarrow> val option" where
  \<comment> \<open>the section \<open>k\<close> under the \<open>resource\<close> envelope of an assembled record\<close>
  "section_of r k =
     (case r of Inl e \<Rightarrow> None | Inr record \<Rightarrow> lookup_path record [''resource'', k])"

fun sets_key :: "val \<Rightarrow> string \<Rightarrow> bool" where
  \<comment> \<open>an override layer has the top-level key \<open>k\<close>\<close>
  "sets_key (VDict d) k = contains d k"
| "sets_key v k = False"

fun path_dict :: "string list \<Rightarrow> val \<Rightarrow> dict" where
  \<comment> \<open>the override that sets the one leaf \<open>v\<close> at the path \<open>k1.k2...\<close>\<close>
  "path_dict [] v = []"
| "path_dict [k] v = [(k, v)]"
| "path_dict (k # k' # ks) v = [(k, VDict (path_dict (k' # ks) v))]"

definition post_overrides :: "dict \<Rightarrow> val" where
  \<comment> \<open>the override layer that the post carries, empty when it has none\<close>
  "post_overrides data_post =
     (case map_of data_post ''doi-additional-metadata'' of None \<Rightarrow> VDict [] | Some m \<Rightarrow> m)"

section \<open>The end-to-end scenario of the specification\<close>

definition example_lib :: "lib" where
  "example_lib =
     \<lparr>dateparser_parse =
        (\<lambda>s. if s = ''2022-08-01'' then Some \<lparr>year = 2022, month = 8, day = 1\<rparr> else None),
      format_other = (\<lambda>v. ''None'')\<rparr>"

definition example_config :: "val" where
  "example_config = VDict
     [(''url'', VStr ''https://blog.acme.com''),
      (''doi_jekyll'', VDict
         [(''prefix'', VStr ''10.1234''),
          (''suffix_base'', VStr ''blog''),
          (''provider_url'', VStr ''https://example.org''),
          (''publisher'', VStr ''Acme''),
          (''affiliation'', VStr ''Acme Labs'')])]"

definition example_blog :: "dict" where
  "example_blog =
     [(''prefix'', VStr ''10.1234''),
      (''suffix_base'', VStr ''blog''),
      (''provider_url'', VStr ''https://example.org''),
      (''publisher'', VStr ''Acme''),
      (''affiliation'', VStr ''Acme Labs''),
      (''url'', VStr ''https://blog.acme.com'')]"

definition example_post :: "dict" where
  "example_post =
     [(''title'', VStr ''Hello World''),
      (''date'', VStr ''2022-08-01''),
      (''author'', VStr ''stephen''),
      (''tags'', VStr ''tech science''),
      (''license'', VStr ''mit'')]"

definition example_post_registered :: "dict" where
  \<comment> \<open>the post once \<open>main\<close> has put the generated identifier into it\<close>
  "example_post_registered = example_post @ [(''doi'', VStr ''10.1234/blog-SGVsbG'')]"

definition example_post_unlicensed :: "dict" where
  \<comment> \<open>the registered post without its \<open>license\<close>\<close>
  "example_post_unlicensed =
     [(''title'', VStr ''Hello World''),
      (''date'', VStr ''2022-08-01''),
      (''author'', VStr ''stephen''),
      (''tags'', VStr ''tech science''),
      (''doi'', VStr ''10.1234/blog-SGVsbG'')]"

definition example_post_described :: "dict" where
  \<comment> \<open>the registered post, without \<open>abstract\<close>, with a descriptions section among
      its own overrides\<close>
  "example_post_described =
     example_post_registered @
     [(''doi-additional-metadata'', VDict
         [(''descriptions'', VDict [(''description'', VStr ''Set by hand'')])])]"

definition example_post_versioned :: "dict" where
  \<comment> \<open>the registered post with the override \<open>{"version": "3.0"}\<close>\<close>
  "example_post_versioned =
     example_post_registered @ [(''doi-additional-metadata'', VDict [(''version'', VStr ''3.0'')])]"

definition example_author :: "dict" where
  "example_author =
     [(''name'', VStr ''Stephen King''),
      (''first_name'', VStr ''Stephen''),
      (''last_name'', VStr ''King''),
      (''orcid_id'', VStr ''0000-0000-0000-0000'')]"

definition example_world :: "world" where
  \<comment> \<open>a world with the one author file, a registry that answers every request
      with an \<open>ok\<close> response and a post file that can be written\<close>
  "example_world =
     \<lparr>libs = example_lib,
      frontmatter_load =
        (\<lambda>src. if src = Author_in_dir ''_authors'' ''stephen'' then Inr example_author
              else Inl (FileNotFoundError ''author file'')),
      xmltodict_unparse = (\<lambda>v. Inr ''<resource/>''),
      requests_put = (\<lambda>url body. Inr True),
      frontmatter_dump = (\<lambda>p f. Inr ())\<rparr>"

definition example_args :: "args" where
  "example_args =
     \<lparr>user = Some ''user'', password = Some ''secret'', force = False, dry_run = False,
      skip_url = False, author_file = None, authors_dir = ''_authors'',
      blogpost_name = ''_posts/2022-08-01-hello-world.md''\<rparr>"

section \<open>Properties\<close>

subsection \<open>The identifier generator\<close>

lemma b64_alphabet_ascii: "list_all (\<lambda>c. (of_char c :: nat) < 128) b64_alphabet"
  by (simp add: b64_alphabet_def)

lemma b64_char_ascii: "b64_char i < 128"
proof -
  have len: "length b64_alphabet = 64"
    by (simp add: b64_alphabet_def)
  then have "i mod 64 < length b64_alphabet"
    by simp
  with b64_alphabet_ascii show ?thesis
    unfolding b64_char_def list_all_length by blast
qed

lemma b64encode_ascii: "list_all (\<lambda>b. b < 128) (b64encode bs)"
  by (induction bs rule: b64encode.induct) (simp_all add: b64_char_ascii)

lemma utf8_valid_ascii: "list_all (\<lambda>b. b < 128) bs \<Longrightarrow> utf8_valid bs"
  by (induction bs rule: utf8_valid.induct) auto

lemma bytes_decode_b64: "bytes_decode (take n (b64encode bs)) = Inr (take n (map char_of (b64encode bs)))"
proof -
  have "list_all (\<lambda>b. b < 128) (take n (b64encode bs))"
    using b64encode_ascii [of bs] by (auto simp: list_all_iff dest: in_set_takeD)
  then show ?thesis
    by (simp add: bytes_decode_def utf8_valid_ascii take_map)
qed

lemma genDoi_eq:
  "genDoi title base prefix =
     (if encodable title
      then Inr (prefix @ ''/'' @ base @ ''-''
                @ take 6 (map char_of (b64encode (utf8_bytes title))))
      else Inl UnicodeEncodeError)"
  by (simp add: genDoi_def str_encode_def Let_def bytes_decode_b64 bnd_def)

text \<open>
  C3, as the claim states it, fails: \<open>title.encode()\<close> raises for a title that holds
  a lone surrogate, here the one character U+D800, and the generator fails with it.
\<close>

theorem genDoi_surrogate_counterexample:
  "genDoi [CHR 0xED, CHR 0xA0, CHR 0x80] ''blog'' ''10.1234'' = Inl UnicodeEncodeError"
  by code_simp

text \<open>
  C3, amended. For every base and prefix and every title that can be encoded as UTF-8
  (a text without a lone surrogate) the identifier generator returns, without failing,
  the text \<open>prefix/base-first6\<close>, where \<open>first6\<close> is the first six characters of
  the base64 text of the title's UTF-8 bytes. It is a function of its three arguments,
  so equal inputs give equal results.
\<close>

theorem genDoi_value:
  assumes "encodable title"
  shows "genDoi title base prefix =
     Inr (prefix @ ''/'' @ base @ ''-'' @ take 6 (map char_of (b64encode (utf8_bytes title))))"
  using assms by (simp add: genDoi_eq)

theorem genDoi_value_witness:
  "genDoi ''Hello World'' ''blog'' ''10.1234'' = Inr ''10.1234/blog-SGVsbG''"
proof -
  have e: "encodable ''Hello World''"
    by code_simp
  have "take 6 (map char_of (b64encode (utf8_bytes ''Hello World''))) = ''SGVsbG''"
    by code_simp
  with genDoi_value [OF e, of "''blog''" "''10.1234''"] show ?thesis
    by simp
qed

subsection \<open>The license resolver\<close>

text \<open>
  C4. A post whose license text is, up to case, one of \<open>mit\<close>, \<open>cc0\<close>, \<open>cc-by4\<close>
  and \<open>gpl3\<close> resolves to the entry with the SPDX identifier and the URL of that
  license. Any other license text ends the run: in \<open>metadata.py\<close> with the
  \<open>NameError\<close> of the \<open>sys\<close> that the module does not import, in \<open>doi-jekyll.py\<close>
  with \<open>SystemExit\<close>.
\<close>

theorem parseLicense_table:
  assumes "map_of data_post ''license'' = Some (VStr s)"
  shows "(lower s = ''mit'' \<longrightarrow>
            parseLicense data_post = Inr (VDict
              [(''@schemeURI'', VStr ''https://spdx.org/licenses/''),
               (''@rightsIdentifierScheme'', VStr ''SPDX''),
               (''@rightsIdentifier'', VStr ''MIT''),
               (''@rightsURI'', VStr ''https://spdx.org/licenses/MIT.html'')])
            \<and> parseLicense_script data_post = parseLicense data_post)
       \<and> (lower s = ''cc0'' \<longrightarrow>
            parseLicense data_post = Inr (VDict
              [(''@schemeURI'', VStr ''https://spdx.org/licenses/''),
               (''@rightsIdentifierScheme'', VStr ''SPDX''),
               (''@rightsIdentifier'', VStr ''CC0-1.0''),
               (''@rightsURI'', VStr ''https://creativecommons.org/publicdomain/zero/1.0/'')])
            \<and> parseLicense_script data_post = parseLicense data_post)
       \<and> (lower s = ''cc-by4'' \<longrightarrow>
            parseLicense data_post = Inr (VDict
              [(''@schemeURI'', VStr ''https://spdx.org/licenses/''),
               (''@rightsIdentifierScheme'', VStr ''SPDX''),
               (''@rightsIdentifier'', VStr ''CC-BY-4.0''),
               (''@rightsURI'', VStr ''https://creativecommons.org/licenses/by/4.0/'')])
            \<and> parseLicense_script data_post = parseLicense data_post)
       \<and> (lower s = ''gpl3'' \<longrightarrow>
            parseLicense data_post = Inr (VDict
              [(''@schemeURI'', VStr ''https://spdx.org/licenses/''),
               (''@rightsIdentifierScheme'', VStr ''SPDX''),
               (''@rightsIdentifier'', VStr ''GPL-3.0-only''),
               (''@rightsURI'', VStr ''https://opensource.org/licenses/GPL-3.0'')])
            \<and> parseLicense_script data_post = parseLicense data_post)
       \<and> (lower s \<notin> {''mit'', ''cc0'', ''cc-by4'', ''gpl3''} \<longrightarrow>
            parseLicense data_post = Inl (NameError ''sys'')
            \<and> parseLicense_script data_post = Inl (SystemExit None))"
  using assms
  by (simp add: parseLicense_def parseLicense_script_def license_table_def contains_def
      getitem_def str_lower_def bnd_def rights_entry_def)

theorem parseLicense_table_witness:
  "parseLicense [(''license'', VStr ''MIT'')] = Inr (VDict
     [(''@schemeURI'', VStr ''https://spdx.org/licenses/''),
      (''@rightsIdentifierScheme'', VStr ''SPDX''),
      (''@rightsIdentifier'', VStr ''MIT''),
      (''@rightsURI'', VStr ''https://spdx.org/licenses/MIT.html'')])
   \<and> parseLicense [(''license'', VStr ''Cc0'')] = Inr (VDict
     [(''@schemeURI'', VStr ''https://spdx.org/licenses/''),
      (''@rightsIdentifierScheme'', VStr ''SPDX''),
      (''@rightsIdentifier'', VStr ''CC0-1.0''),
      (''@rightsURI'', VStr ''https://creativecommons.org/publicdomain/zero/1.0/'')])
   \<and> parseLicense [(''license'', VStr ''CC-BY4'')] = Inr (VDict
     [(''@schemeURI'', VStr ''https://spdx.org/licenses/''),
      (''@rightsIdentifierScheme'', VStr ''SPDX''),
      (''@rightsIdentifier'', VStr ''CC-BY-4.0''),
      (''@rightsURI'', VStr ''https://creativecommons.org/licenses/by/4.0/'')])
   \<and> parseLicense [(''license'', VStr ''gpl3'')] = Inr (VDict
     [(''@schemeURI'', VStr ''https://spdx.org/licenses/''),
      (''@rightsIdentifierScheme'', VStr ''SPDX''),
      (''@rightsIdentifier'', VStr ''GPL-3.0-only''),
      (''@rightsURI'', VStr ''https://opensource.org/licenses/GPL-3.0'')])
   \<and> parseLicense [(''license'', VStr ''Apache-2.0'')] = Inl (NameError ''sys'')
   \<and> parseLicense_script [(''license'', VStr ''Apache-2.0'')] = Inl (SystemExit None)"
proof -
  have l: "lower ''MIT'' = ''mit''" "lower ''Cc0'' = ''cc0''" "lower ''CC-BY4'' = ''cc-by4''"
    "lower ''gpl3'' = ''gpl3''" "lower ''Apache-2.0'' = ''apache-2.0''"
    by code_simp+
  show ?thesis
    using parseLicense_table [of "[(''license'', VStr ''MIT'')]" "''MIT''"]
      parseLicense_table [of "[(''license'', VStr ''Cc0'')]" "''Cc0''"]
      parseLicense_table [of "[(''license'', VStr ''CC-BY4'')]" "''CC-BY4''"]
      parseLicense_table [of "[(''license'', VStr ''gpl3'')]" "''gpl3''"]
      parseLicense_table [of "[(''license'', VStr ''Apache-2.0'')]" "''Apache-2.0''"]
    by (simp add: l)
qed

subsection \<open>The workflow\<close>

lemmas prog_defs = ret_def raise_def lift_def seqm_def emit_def get_post_def set_post_item_def

lemma main_head_existing_doi:
  assumes "contains post ''doi''" "\<not> force a"
  shows "\<exists>e s'. main_head W a y \<lparr>raw_data_post = post, trace = []\<rparr> = (Inl e, s')
           \<and> raw_data_post s' = post \<and> list_all (\<lambda>ev. \<not> is_put ev \<and> \<not> is_dump ev) (trace s')"
  using assms
  by (auto simp: main_head_def prog_defs parseCredentials_def check_existing_doi_def
      contains_def getitem_def bnd_def split: option.splits sum.splits prod.splits)

lemma main_head_existing_doi_exact:
  assumes "map_of post ''doi'' = Some doi" "\<not> force a"
    and "user a = Some u" "password a = Some pw" "collectBlogData y = Inr blog"
    and "map_of post ''author'' = Some au" "collectAuthorData W au a = Inr author"
  shows "main_head W a y \<lparr>raw_data_post = post, trace = []\<rparr>
           = (Inl (SystemExit (Some (doi_exists_message (libs W) doi))), \<lparr>raw_data_post = post, trace = []\<rparr>)"
  using assms
  by (simp add: main_head_def prog_defs parseCredentials_def check_existing_doi_def
      contains_def getitem_def)



lemma main_after_head:
  "main W a y s =
     (case main_head W a y s of
        (Inl e, s') \<Rightarrow> (Inl e, s')
      | (Inr x, s') \<Rightarrow>
          (Inl (TypeError ''assembleMetadata() missing 1 required positional argument''), s'))"
  by (simp add: main_def prog_defs assembleMetadata_call3_def split: prod.splits sum.splits)

lemma main_script_head_fails:
  "main_head W a y s = (Inl e, s') \<Longrightarrow> main_script W a y s = (Inl e, s')"
  by (simp add: main_script_def prog_defs)

text \<open>
  C7. A run on a post whose front-matter has a \<open>doi\<close> key, without the force flag,
  ends with an exception in both entry points, sends no request to the registry,
  leaves the post record as it was read and does not write the post file. Once the
  credentials are given and the three documents are read, the exception is the
  \<open>SystemExit\<close> that carries the message about the existing DOI, and nothing has been
  printed or sent before it.
\<close>

theorem existing_doi_stops_run:
  assumes "map_of post ''doi'' = Some doi" and "\<not> force a"
  shows "(\<exists>e. fst (run (main W a y) post) = Inl e)
       \<and> (\<exists>e. fst (run (main_script W a y) post) = Inl e)
       \<and> raw_data_post (snd (run (main W a y) post)) = post
       \<and> raw_data_post (snd (run (main_script W a y) post)) = post
       \<and> list_all (\<lambda>ev. \<not> is_put ev \<and> \<not> is_dump ev) (trace (snd (run (main W a y) post)))
       \<and> list_all (\<lambda>ev. \<not> is_put ev \<and> \<not> is_dump ev) (trace (snd (run (main_script W a y) post)))
       \<and> (user a = Some u \<and> password a = Some pw \<and> collectBlogData y = Inr blog
            \<and> map_of post ''author'' = Some au \<and> collectAuthorData W au a = Inr author \<longrightarrow>
          run (main W a y) post =
            (Inl (SystemExit (Some (doi_exists_message (libs W) doi))),
             \<lparr>raw_data_post = post, trace = []\<rparr>)
          \<and> run (main_script W a y) post =
            (Inl (SystemExit (Some (doi_exists_message (libs W) doi))),
             \<lparr>raw_data_post = post, trace = []\<rparr>))"
proof -
  from assms have c: "contains post ''doi''"
    by (simp add: contains_def)
  from main_head_existing_doi [OF c assms(2), of W y]
  obtain e s' where h: "main_head W a y \<lparr>raw_data_post = post, trace = []\<rparr> = (Inl e, s')"
    and p: "raw_data_post s' = post"
    and t: "list_all (\<lambda>ev. \<not> is_put ev \<and> \<not> is_dump ev) (trace s')"
    by blast
  have m: "run (main W a y) post = (Inl e, s')"
    using h by (simp add: run_def main_after_head)
  have ms: "run (main_script W a y) post = (Inl e, s')"
    using h by (simp add: run_def main_script_head_fails)
  have exact: "run (main W a y) post =
            (Inl (SystemExit (Some (doi_exists_message (libs W) doi))),
             \<lparr>raw_data_post = post, trace = []\<rparr>)
          \<and> run (main_script W a y) post =
            (Inl (SystemExit (Some (doi_exists_message (libs W) doi))),
             \<lparr>raw_data_post = post, trace = []\<rparr>)"
    if "user a = Some u" "password a = Some pw" "collectBlogData y = Inr blog"
      "map_of post ''author'' = Some au" "collectAuthorData W au a = Inr author"
    using main_head_existing_doi_exact [OF assms that] h m ms by simp
  show ?thesis
    using m ms p t exact by simp
qed

theorem existing_doi_stops_run_witness:
  "run (main example_world example_args example_config)
          (example_post @ [(''doi'', VStr ''10.1234/blog-SGVsbG'')]) =
     (Inl (SystemExit (Some (doi_exists_message (libs example_world)
                               (VStr ''10.1234/blog-SGVsbG'')))),
      \<lparr>raw_data_post = example_post @ [(''doi'', VStr ''10.1234/blog-SGVsbG'')], trace = []\<rparr>)
   \<and> run (main_script example_world example_args example_config)
          (example_post @ [(''doi'', VStr ''10.1234/blog-SGVsbG'')]) =
     (Inl (SystemExit (Some (doi_exists_message (libs example_world)
                               (VStr ''10.1234/blog-SGVsbG'')))),
      \<lparr>raw_data_post = example_post @ [(''doi'', VStr ''10.1234/blog-SGVsbG'')], trace = []\<rparr>)"
proof -
  let ?post = "example_post @ [(''doi'', VStr ''10.1234/blog-SGVsbG'')]"
  have h1: "map_of ?post ''doi'' = Some (VStr ''10.1234/blog-SGVsbG'')"
    by code_simp
  have h2: "\<not> force example_args"
    by (simp add: example_args_def)
  have h3: "user example_args = Some ''user'' \<and> password example_args = Some ''secret''
      \<and> collectBlogData example_config = Inr example_blog
      \<and> map_of ?post ''author'' = Some (VStr ''stephen'')
      \<and> collectAuthorData example_world (VStr ''stephen'') example_args = Inr example_author"
    by code_simp
  from existing_doi_stops_run [OF h1 h2, of example_world example_config "''user''" "''secret''"
      example_blog "VStr ''stephen''" example_author] h3
  show ?thesis
    by blast
qed



text \<open>
  C6. In both entry points the code after the metadata request reads \<open>debug.ok\<close>, a
  name that nothing binds, instead of the \<open>ok\<close> of the response. So a run that is not
  a dry run ends with \<open>NameError\<close> as soon as the registry has answered the metadata
  request, whatever the status \<open>ok\<close> of the answer: the request has been sent, and the
  URL is never registered nor the post file written.
\<close>

theorem metadata_response_not_consulted:
  assumes "\<not> dry_run a" "xmltodict_unparse W json = Inr xml"
    and "map_of post ''doi'' = Some doi" "map_of blog ''provider_url'' = Some purl"
    and "requests_put W (fstr (libs W) purl @ ''/metadata/'' @ fstr (libs W) doi) xml = Inr ok"
  shows "run (main_tail permalink W a blog json) post =
           (Inl (NameError ''debug''),
            \<lparr>raw_data_post = post,
             trace = [Put (fstr (libs W) purl @ ''/metadata/'' @ fstr (libs W) doi) xml]\<rparr>)"
  using assms
  by (simp add: run_def main_tail_def prog_defs registerMetadata_def debug_ok_def getitem_def Let_def)

theorem metadata_response_not_consulted_witness:
  "run (main_tail genPermalink_script example_world example_args example_blog VNone)
       (example_post @ [(''doi'', VStr ''10.1234/blog-SGVsbG'')]) =
     (Inl (NameError ''debug''),
      \<lparr>raw_data_post = example_post @ [(''doi'', VStr ''10.1234/blog-SGVsbG'')],
       trace = [Put ''https://example.org/metadata/10.1234/blog-SGVsbG'' ''<resource/>'']\<rparr>)"
proof -
  let ?post = "example_post @ [(''doi'', VStr ''10.1234/blog-SGVsbG'')]"
  let ?url = "fstr (libs example_world) (VStr ''https://example.org'') @ ''/metadata/''
              @ fstr (libs example_world) (VStr ''10.1234/blog-SGVsbG'')"
  have h1: "\<not> dry_run example_args"
    by (simp add: example_args_def)
  have h2: "xmltodict_unparse example_world VNone = Inr ''<resource/>''"
    by (simp add: example_world_def)
  have h3: "map_of ?post ''doi'' = Some (VStr ''10.1234/blog-SGVsbG'')"
    by code_simp
  have h4: "map_of example_blog ''provider_url'' = Some (VStr ''https://example.org'')"
    by code_simp
  have h5: "requests_put example_world ?url ''<resource/>'' = Inr True"
    by (simp add: example_world_def)
  have u: "?url = ''https://example.org/metadata/10.1234/blog-SGVsbG''"
    by (simp add: fstr_def)
  from metadata_response_not_consulted [OF h1 h2 h3 h4 h5, of genPermalink_script]
  show ?thesis
    by (simp only: u)
qed

lemma main_script_ok_response_aborts:
  "run (main_script example_world example_args example_config) example_post =
     (Inl (NameError ''debug''),
      \<lparr>raw_data_post = example_post @ [(''doi'', VStr ''10.1234/blog-SGVsbG'')],
       trace = [Print ''Note: No abstract given!'',
                Put ''https://example.org/metadata/10.1234/blog-SGVsbG'' ''<resource/>'']\<rparr>)"
  by code_simp

subsection \<open>The deep merge\<close>

lemma map_of_setitem: "map_of (setitem d k v) = (map_of d)(k \<mapsto> v)"
  by (simp add: setitem_def update_conv')

lemma map_of_dict_ior: "map_of (dict_ior d e) = map_of d ++ map_of (rev e)"
proof (induction d e rule: dict_ior.induct)
  case (1 d)
  then show ?case by simp
next
  case (2 d k v e)
  have "map_of (dict_ior d ((k, v) # e)) = map_of (dict_ior (setitem d k v) e)"
    by simp
  also have "\<dots> = map_of (setitem d k v) ++ map_of (rev e)"
    by (rule 2)
  also have "\<dots> = (map_of d)(k \<mapsto> v) ++ map_of (rev e)"
    by (simp only: map_of_setitem)
  also have "\<dots> = map_of d ++ map_of (rev ((k, v) # e))"
    by (rule ext) (simp add: map_add_def split: option.splits)
  finally show ?case .
qed

lemma deepmerge_other:
  "k \<notin> fst ` set src \<Longrightarrow> map_of (deepmerge dst src) k = map_of dst k"
  by (induction dst src rule: deepmerge.induct)
     (auto simp: map_of_setitem split: option.splits val.splits)

lemma deepmerge_key:
  "distinct (map fst src) \<Longrightarrow>
   map_of (deepmerge dst src) k =
     (case map_of src k of
        None \<Rightarrow> map_of dst k
      | Some v \<Rightarrow>
          (case map_of dst k of
             Some (VDict d) \<Rightarrow> (case v of VDict s \<Rightarrow> Some (VDict (deepmerge d s)) | _ \<Rightarrow> Some v)
           | _ \<Rightarrow> Some v))"
proof (induction dst src rule: deepmerge.induct)
  case (1 dst)
  then show ?case by simp
next
  case (2 dst key v src)
  let ?dst' = "(case map_of dst key of
          None \<Rightarrow> setitem dst key v
        | Some old \<Rightarrow>
            (case old of
               VDict d \<Rightarrow>
                 (case v of
                    VDict s \<Rightarrow> setitem dst key (VDict (deepmerge d s))
                  | _ \<Rightarrow> setitem dst key v)
             | _ \<Rightarrow> setitem dst key v))"
  from "2.prems" have d: "distinct (map fst src)" and nk: "key \<notin> fst ` set src"
    by auto
  have step: "deepmerge dst ((key, v) # src) = deepmerge ?dst' src"
    by simp
  show ?case
  proof (cases "k = key")
    case True
    then have "map_of (deepmerge ?dst' src) k = map_of ?dst' k"
      using nk by (simp add: deepmerge_other)
    then show ?thesis
      using True by (auto simp: map_of_setitem split: option.splits val.splits)
  next
    case False
    have o: "map_of ?dst' k = map_of dst k"
      using False by (auto simp: map_of_setitem split: option.splits val.splits)
    have "map_of (deepmerge ?dst' src) k =
      (case map_of src k of
        None \<Rightarrow> map_of ?dst' k
      | Some v \<Rightarrow>
          (case map_of ?dst' k of
             Some (VDict d) \<Rightarrow> (case v of VDict s \<Rightarrow> Some (VDict (deepmerge d s)) | _ \<Rightarrow> Some v)
           | _ \<Rightarrow> Some v))"
      using "2.IH"(2) d by blast
    then have "map_of (deepmerge dst ((key, v) # src)) k =
      (case map_of src k of
        None \<Rightarrow> map_of dst k
      | Some v \<Rightarrow>
          (case map_of dst k of
             Some (VDict d) \<Rightarrow> (case v of VDict s \<Rightarrow> Some (VDict (deepmerge d s)) | _ \<Rightarrow> Some v)
           | _ \<Rightarrow> Some v))"
      unfolding step o .
    moreover have "map_of ((key, v) # src) k = map_of src k"
      using False by simp
    ultimately show ?thesis
      by (simp only:)
  qed
qed

lemma deepmerge_keeps:
  "map_of dst k = Some w \<Longrightarrow> \<exists>w'. map_of (deepmerge dst src) k = Some w'"
proof (induction dst src arbitrary: w rule: deepmerge.induct)
  case (1 dst)
  then show ?case by simp
next
  case (2 dst key v src)
  let ?dst' = "(case map_of dst key of
          None \<Rightarrow> setitem dst key v
        | Some old \<Rightarrow>
            (case old of
               VDict d \<Rightarrow>
                 (case v of
                    VDict s \<Rightarrow> setitem dst key (VDict (deepmerge d s))
                  | _ \<Rightarrow> setitem dst key v)
             | _ \<Rightarrow> setitem dst key v))"
  have "\<exists>w1. map_of ?dst' k = Some w1"
    using "2.prems" by (auto simp: map_of_setitem split: option.splits val.splits)
  then obtain w1 where "map_of ?dst' k = Some w1" ..
  then have "\<exists>w'. map_of (deepmerge ?dst' src) k = Some w'"
    by (rule "2.IH"(2))
  then show ?case by simp
qed

lemma path_dict_Cons:
  "path_dict (k # ks) v = [(k, if ks = [] then v else VDict (path_dict ks v))]"
  by (cases ks) simp_all

lemma lookup_path_dict: "p \<noteq> [] \<Longrightarrow> lookup_path (VDict (path_dict p v)) p = Some v"
proof (induction p)
  case Nil
  then show ?case by simp
next
  case (Cons k ks)
  then show ?case
    by (cases ks) (simp_all add: path_dict_Cons)
qed

lemma lookup_path_dict_off:
  "k \<noteq> k' \<Longrightarrow> lookup_path (VDict (path_dict (c @ k # rest) v)) (c @ k' # rest') = None"
proof (induction c)
  case Nil
  then show ?case by (simp add: path_dict_Cons)
next
  case (Cons x c)
  then show ?case by (simp add: path_dict_Cons)
qed

lemma lookup_path_leaf: "\<not> is_mapping w \<Longrightarrow> p \<noteq> [] \<Longrightarrow> lookup_path w p = None"
  by (cases w; cases p) simp_all

lemma deepmerge_single:
  "deepmerge dst [(k, x)] =
     (case map_of dst k of
        Some (VDict d) \<Rightarrow>
          (case x of VDict s \<Rightarrow> setitem dst k (VDict (deepmerge d s)) | _ \<Rightarrow> setitem dst k x)
      | _ \<Rightarrow> setitem dst k x)"
  by (simp split: option.splits val.splits)

lemma deepmerge_path_siblings:
  "k \<noteq> k' \<Longrightarrow>
   lookup_path (VDict (deepmerge target (path_dict (c @ k # rest) v))) (c @ k' # rest')
     = lookup_path (VDict target) (c @ k' # rest')"
proof (induction c arbitrary: target)
  case Nil
  then show ?case
    by (simp add: path_dict_Cons deepmerge_single map_of_setitem del: deepmerge.simps
        split: option.splits val.splits)
next
  case (Cons x c)
  have off: "lookup_path (VDict (path_dict (c @ k # rest) v)) (c @ k' # rest') = None"
    using Cons.prems by (rule lookup_path_dict_off)
  show ?case
  proof (cases "map_of target x")
    case None
    then show ?thesis
      using off by (simp add: path_dict_Cons deepmerge_single map_of_setitem del: deepmerge.simps)
  next
    case (Some old)
    show ?thesis
    proof (cases old)
      case (VDict d)
      then show ?thesis
        using Some Cons.IH [OF Cons.prems, of d]
        by (simp add: path_dict_Cons deepmerge_single map_of_setitem del: deepmerge.simps)
    qed (use Some off in \<open>simp_all add: path_dict_Cons deepmerge_single map_of_setitem
           lookup_path_leaf del: deepmerge.simps\<close>)
  qed
qed

lemma deepmerge_path_leaf:
  "p \<noteq> [] \<Longrightarrow> \<not> is_mapping v \<Longrightarrow>
   lookup_path (VDict (deepmerge target (path_dict p v))) p = Some v"
proof (induction p arbitrary: target)
  case Nil
  then show ?case by simp
next
  case (Cons k ks)
  show ?case
  proof (cases "ks = []")
    case True
    then show ?thesis
      using Cons.prems(2)
      by (cases v)
         (simp_all add: path_dict_Cons deepmerge_single map_of_setitem del: deepmerge.simps
           split: option.splits val.splits)
  next
    case False
    have here: "lookup_path (VDict (path_dict ks v)) ks = Some v"
      using False by (rule lookup_path_dict)
    show ?thesis
    proof (cases "map_of target k")
      case None
      then show ?thesis
        using False here
        by (simp add: path_dict_Cons deepmerge_single map_of_setitem del: deepmerge.simps)
    next
      case (Some old)
      show ?thesis
      proof (cases old)
        case (VDict d)
        then show ?thesis
          using Some False Cons.IH [OF False Cons.prems(2), of d]
          by (simp add: path_dict_Cons deepmerge_single map_of_setitem del: deepmerge.simps)
      qed (use Some False here in \<open>simp_all add: path_dict_Cons deepmerge_single map_of_setitem
             del: deepmerge.simps\<close>)
    qed
  qed
qed

lemma wf_val_map_of: "wf_val (VDict d) \<Longrightarrow> map_of d k = Some w \<Longrightarrow> wf_val w"
  by (auto dest!: map_of_SomeD simp: image_iff)

lemma deepmerge_leaf_wins:
  "wf_val (VDict src) \<Longrightarrow> lookup_path (VDict src) p = Some v \<Longrightarrow> \<not> is_mapping v \<Longrightarrow> p \<noteq> []
   \<Longrightarrow> lookup_path (VDict (deepmerge dst src)) p = Some v"
proof (induction p arbitrary: dst src)
  case Nil
  then show ?case by simp
next
  case (Cons k ks)
  from Cons.prems(2) obtain w where w: "map_of src k = Some w" and l: "lookup_path w ks = Some v"
    by (auto split: option.splits)
  have d: "distinct (map fst src)"
    using Cons.prems(1) by simp
  have wfw: "wf_val w"
    using Cons.prems(1) w by (rule wf_val_map_of)
  note key = deepmerge_key [OF d, of dst k]
  show ?case
  proof (cases "ks = []")
    case True
    with l have "w = v" by simp
    then show ?thesis
      using key w True Cons.prems(3)
      by (cases v) (auto split: option.splits val.splits)
  next
    case False
    then obtain s where s: "w = VDict s"
      using l by (cases w; cases ks) simp_all
    show ?thesis
    proof (cases "\<exists>d'. map_of dst k = Some (VDict d')")
      case True
      then obtain d' where d': "map_of dst k = Some (VDict d')" ..
      have "lookup_path (VDict (deepmerge d' s)) ks = Some v"
        using wfw l Cons.prems(3) False unfolding s by (rule Cons.IH)
      then show ?thesis
        using key w s d' by simp
    next
      case False
      then have "map_of (deepmerge dst src) k = Some w"
        using key w s by (auto split: option.splits val.splits)
      then show ?thesis
        using l by simp
    qed
  qed
qed

text \<open>
  C8. The deep merge does not destroy what it does not override. Merging the override
  that sets the one leaf at the path \<open>c.k.rest\<close> (such as
  \<open>creators.creator.givenName\<close>) into any target leaves every path that leaves this
  one at a sibling key \<open>k'\<close> as it is in the target, and puts the new leaf at the
  path. Key by key, for a source without repeated keys: a key that only the target has
  keeps its value, two mappings under one key are merged in turn, and in every other
  case the value of the source replaces the value of the target.
\<close>

theorem deepmerge_nondestructive:
  "(k \<noteq> k' \<longrightarrow>
      lookup_path (VDict (deepmerge target (path_dict (c @ k # rest) v))) (c @ k' # rest')
        = lookup_path (VDict target) (c @ k' # rest'))
   \<and> (\<not> is_mapping v \<longrightarrow>
      lookup_path (VDict (deepmerge target (path_dict (c @ k # rest) v))) (c @ k # rest) = Some v)
   \<and> (distinct (map fst src) \<longrightarrow>
      map_of (deepmerge dst src) key =
        (case map_of src key of
           None \<Rightarrow> map_of dst key
         | Some new \<Rightarrow>
             (case map_of dst key of
                Some (VDict d) \<Rightarrow>
                  (case new of VDict s \<Rightarrow> Some (VDict (deepmerge d s)) | _ \<Rightarrow> Some new)
              | _ \<Rightarrow> Some new)))"
  using deepmerge_path_siblings [of k k' target c rest v rest']
    deepmerge_path_leaf [of "c @ k # rest" v target]
    deepmerge_key [of src dst key]
  by simp

theorem deepmerge_nondestructive_witness:
  "lookup_path
     (VDict (deepmerge
        [(''creators'', VDict [(''creator'', VDict
            [(''givenName'', VStr ''Stephen''), (''familyName'', VStr ''King'')])])]
        (path_dict [''creators'', ''creator'', ''givenName''] (VStr ''S.''))))
     [''creators'', ''creator'', ''familyName''] = Some (VStr ''King'')
   \<and> lookup_path
     (VDict (deepmerge
        [(''creators'', VDict [(''creator'', VDict
            [(''givenName'', VStr ''Stephen''), (''familyName'', VStr ''King'')])])]
        (path_dict [''creators'', ''creator'', ''givenName''] (VStr ''S.''))))
     [''creators'', ''creator'', ''givenName''] = Some (VStr ''S.'')
   \<and> map_of (deepmerge [(''a'', VDict [(''x'', VInt 1)]), (''b'', VInt 2)]
                [(''a'', VDict [(''y'', VInt 3)]), (''b'', VDict [])]) ''a''
       = Some (VDict (deepmerge [(''x'', VInt 1)] [(''y'', VInt 3)]))"
proof -
  let ?T = "[(''creators'', VDict [(''creator'', VDict
            [(''givenName'', VStr ''Stephen''), (''familyName'', VStr ''King'')])])]"
  let ?src = "[(''a'', VDict [(''y'', VInt 3)]), (''b'', VDict [])]"
  let ?dst = "[(''a'', VDict [(''x'', VInt 1)]), (''b'', VInt 2)]"
  have h: "''givenName'' \<noteq> ''familyName''" "\<not> is_mapping (VStr ''S.'')"
    "distinct (map fst ?src)"
    by simp_all
  have t: "lookup_path (VDict ?T) ([''creators'', ''creator''] @ ''familyName'' # [])
           = Some (VStr ''King'')"
    by code_simp
  have m: "(case map_of ?src ''a'' of
           None \<Rightarrow> map_of ?dst ''a''
         | Some new \<Rightarrow>
             (case map_of ?dst ''a'' of
                Some (VDict d) \<Rightarrow>
                  (case new of VDict s \<Rightarrow> Some (VDict (deepmerge d s)) | _ \<Rightarrow> Some new)
              | _ \<Rightarrow> Some new)) = Some (VDict (deepmerge [(''x'', VInt 1)] [(''y'', VInt 3)]))"
    by simp
  from deepmerge_nondestructive [of "''givenName''" "''familyName''" ?T
      "[''creators'', ''creator'']" "[]" "VStr ''S.''" "[]" ?src ?dst "''a''"] h
  have "lookup_path (VDict (deepmerge ?T
            (path_dict ([''creators'', ''creator''] @ ''givenName'' # []) (VStr ''S.''))))
          ([''creators'', ''creator''] @ ''familyName'' # [])
        = lookup_path (VDict ?T) ([''creators'', ''creator''] @ ''familyName'' # [])"
    and "lookup_path (VDict (deepmerge ?T
            (path_dict ([''creators'', ''creator''] @ ''givenName'' # []) (VStr ''S.''))))
          ([''creators'', ''creator''] @ ''givenName'' # []) = Some (VStr ''S.'')"
    and "map_of (deepmerge ?dst ?src) ''a'' =
        (case map_of ?src ''a'' of
           None \<Rightarrow> map_of ?dst ''a''
         | Some new \<Rightarrow>
             (case map_of ?dst ''a'' of
                Some (VDict d) \<Rightarrow>
                  (case new of VDict s \<Rightarrow> Some (VDict (deepmerge d s)) | _ \<Rightarrow> Some new)
              | _ \<Rightarrow> Some new))"
    by blast+
  then show ?thesis
    unfolding t m by (simp only: append_Cons append_Nil simp_thms)
qed

subsection \<open>The assembler\<close>

lemma map_of_foldl_dict_ior:
  "map_of (foldl dict_ior d es) k =
     (case map_of (concat (rev (map rev es))) k of None \<Rightarrow> map_of d k | Some v \<Rightarrow> Some v)"
proof (induction es arbitrary: d)
  case Nil
  then show ?case by simp
next
  case (Cons e es)
  show ?case
    by (simp add: Cons.IH map_of_dict_ior map_add_def split: option.splits)
qed

lemma assembleMetadata_Inr:
  assumes "assembleMetadata L b p a ext = Inr r"
  shows "\<exists>data A B. fixed_sections L b p a = Inr data
           \<and> addAdditionalMetadata ext = VDict A
           \<and> addAdditionalMetadata (post_overrides p) = VDict B
           \<and> r = VDict [(''resource'', VDict (deepmerge (deepmerge data A) B))]"
  using assms
  by (auto simp: assembleMetadata_def bnd_def merge_def post_overrides_def addAdditionalMetadata_def
      split: sum.splits option.splits val.splits if_splits)

lemma layer_without_key:
  "\<not> sets_key m k \<Longrightarrow> addAdditionalMetadata m = VDict A \<Longrightarrow> k \<notin> fst ` set A"
  by (cases m) (auto simp: addAdditionalMetadata_def contains_def map_of_eq_None_iff
      split: if_splits)

lemma fixed_sections_Inr:
  assumes "fixed_sections L b p a = Inr data"
  obtains vi vc vt vy vp r ws where
    "parseLicense p = Inr r"
    "data = foldl dict_ior []
       [getMdSchema, [(''identifier'', vi)], [(''creators'', vc)], [(''titles'', vt)],
        [(''publicationYear'', vy)], [(''publisher'', vp)], getMdResourceType,
        getMdLanguage, getMdFormats, getMdVersion p, [(''rightsList'', VDict [(''rights'', r)])],
        [(''subjects'', VDict [(''subject'', ws)])], getMdDescriptions p, getMdRelToBlog b]"
proof -
  from assms obtain ident creators titles pubyear publisher rights subjects where
    s: "getMdIdentifier p = Inr ident" "getMdCreators L b a = Inr creators"
       "getMdTitles p = Inr titles" "getMdPublicationYear L p = Inr pubyear"
       "getMdPublisher b = Inr publisher" "getMdRightsList p = Inr rights"
       "getMdSubjects p = Inr subjects"
    and d: "data = foldl dict_ior []
         [getMdSchema, ident, creators, titles, pubyear, publisher, getMdResourceType,
          getMdLanguage, getMdFormats, getMdVersion p, rights, subjects,
          getMdDescriptions p, getMdRelToBlog b]"
    unfolding fixed_sections_def bnd_def
    by (auto split: sum.splits simp del: foldl_Cons foldl_Nil)
  from s(1) obtain vi where 1: "ident = [(''identifier'', vi)]"
    by (auto simp: getMdIdentifier_def bnd_def split: sum.splits)
  from s(2) obtain vc where 2: "creators = [(''creators'', vc)]"
    by (auto simp: getMdCreators_def bnd_def split: sum.splits)
  from s(3) obtain vt where 3: "titles = [(''titles'', vt)]"
    by (auto simp: getMdTitles_def bnd_def split: sum.splits)
  from s(4) obtain vy where 4: "pubyear = [(''publicationYear'', vy)]"
    by (auto simp: getMdPublicationYear_def bnd_def split: sum.splits)
  from s(5) obtain vp where 5: "publisher = [(''publisher'', vp)]"
    by (auto simp: getMdPublisher_def bnd_def split: sum.splits)
  from s(6) obtain r where 6: "parseLicense p = Inr r"
      "rights = [(''rightsList'', VDict [(''rights'', r)])]"
    by (auto simp: getMdRightsList_def bnd_def split: sum.splits)
  from s(7) obtain ws where 7: "subjects = [(''subjects'', VDict [(''subject'', ws)])]"
    by (auto simp: getMdSubjects_def bnd_def split: sum.splits)
  show thesis
    using that [OF 6(1)] d unfolding 1 2 3 4 5 6(2) 7 by blast
qed

lemma fixed_sections_rights:
  assumes "fixed_sections L b p a = Inr data"
  shows "\<exists>r. parseLicense p = Inr r \<and> map_of data ''rightsList'' = Some (VDict [(''rights'', r)])"
proof -
  from assms obtain vi vc vt vy vp r ws where
    r: "parseLicense p = Inr r"
    and d: "data = foldl dict_ior []
       [getMdSchema, [(''identifier'', vi)], [(''creators'', vc)], [(''titles'', vt)],
        [(''publicationYear'', vy)], [(''publisher'', vp)], getMdResourceType,
        getMdLanguage, getMdFormats, getMdVersion p, [(''rightsList'', VDict [(''rights'', r)])],
        [(''subjects'', VDict [(''subject'', ws)])], getMdDescriptions p, getMdRelToBlog b]"
    by (rule fixed_sections_Inr)
  have "map_of data ''rightsList'' = Some (VDict [(''rights'', r)])"
    unfolding d map_of_foldl_dict_ior
    by (simp add: getMdSchema_def getMdResourceType_def getMdLanguage_def getMdFormats_def
        getMdVersion_def getMdDescriptions_def getMdRelToBlog_def split: option.splits)
  with r show ?thesis by blast
qed

lemma fixed_sections_descriptions:
  assumes "fixed_sections L b p a = Inr data"
  shows "map_of data ''descriptions'' =
     (case map_of p ''abstract'' of
        None \<Rightarrow> None
      | Some t \<Rightarrow> Some (VDict [(''description'',
            VDict [(''@descriptionType'', VStr ''Abstract''), (''#text'', t)])]))"
proof -
  from assms obtain vi vc vt vy vp r ws where
    d: "data = foldl dict_ior []
       [getMdSchema, [(''identifier'', vi)], [(''creators'', vc)], [(''titles'', vt)],
        [(''publicationYear'', vy)], [(''publisher'', vp)], getMdResourceType,
        getMdLanguage, getMdFormats, getMdVersion p, [(''rightsList'', VDict [(''rights'', r)])],
        [(''subjects'', VDict [(''subject'', ws)])], getMdDescriptions p, getMdRelToBlog b]"
    by (rule fixed_sections_Inr)
  show ?thesis
    unfolding d map_of_foldl_dict_ior
    by (simp add: getMdSchema_def getMdResourceType_def getMdLanguage_def getMdFormats_def
        getMdVersion_def getMdDescriptions_def getMdRelToBlog_def split: option.splits)
qed

lemma section_of_assembled:
  assumes "assembleMetadata L b p a ext = Inr r"
  shows "\<exists>data A B.
    fixed_sections L b p a = Inr data
    \<and> addAdditionalMetadata ext = VDict A
    \<and> addAdditionalMetadata (post_overrides p) = VDict B
    \<and> (\<forall>k. section_of (Inr r) k = map_of (deepmerge (deepmerge data A) B) k)
    \<and> (\<forall>ks. lookup_path r (''resource'' # ks)
             = lookup_path (VDict (deepmerge (deepmerge data A) B)) ks)"
proof -
  from assembleMetadata_Inr [OF assms] obtain data A B where
    h: "fixed_sections L b p a = Inr data" "addAdditionalMetadata ext = VDict A"
       "addAdditionalMetadata (post_overrides p) = VDict B"
       "r = VDict [(''resource'', VDict (deepmerge (deepmerge data A) B))]"
    by blast
  have "section_of (Inr r) k = map_of (deepmerge (deepmerge data A) B) k" for k
    by (simp add: section_of_def h(4) split: option.splits)
  moreover have "lookup_path r (''resource'' # ks)
      = lookup_path (VDict (deepmerge (deepmerge data A) B)) ks" for ks
    by (simp add: h(4))
  ultimately show ?thesis
    using h(1-3) by blast
qed

text \<open>
  C1. For a post without a \<open>license\<close> key the license resolver returns \<open>None\<close>, and
  every record that \<open>assembleMetadata\<close> returns for it still has the key
  \<open>rightsList\<close> under \<open>resource\<close>: \<open>getMdRightsList\<close> wraps the \<open>None\<close> where
  its neighbours \<open>getMdDescriptions\<close> and \<open>getMdRelToBlog\<close> return an empty mapping.
  When no override layer sets \<open>rightsList\<close>, the section is \<open>{'rights': None}\<close>.
\<close>

theorem missing_license_keeps_rights_section:
  assumes "\<not> contains data_post ''license''"
    and "assembleMetadata L blog data_post author ext = Inr r"
  shows "parseLicense data_post = Inr VNone
       \<and> (\<exists>v. section_of (Inr r) ''rightsList'' = Some v)
       \<and> (\<not> sets_key ext ''rightsList'' \<and> \<not> sets_key (post_overrides data_post) ''rightsList''
            \<longrightarrow> section_of (Inr r) ''rightsList'' = Some (VDict [(''rights'', VNone)]))"
proof -
  have pl: "parseLicense data_post = Inr VNone"
    using assms(1) by (simp add: parseLicense_def)
  from section_of_assembled [OF assms(2)] obtain data A B where
    f: "fixed_sections L blog data_post author = Inr data"
    and a: "addAdditionalMetadata ext = VDict A"
    and b: "addAdditionalMetadata (post_overrides data_post) = VDict B"
    and s: "\<And>k. section_of (Inr r) k = map_of (deepmerge (deepmerge data A) B) k"
    by blast
  from fixed_sections_rights [OF f] pl
  have d: "map_of data ''rightsList'' = Some (VDict [(''rights'', VNone)])"
    by auto
  from deepmerge_keeps [OF d, of A] obtain w where "map_of (deepmerge data A) ''rightsList'' = Some w"
    ..
  from deepmerge_keeps [OF this, of B] have ex: "\<exists>v. section_of (Inr r) ''rightsList'' = Some v"
    by (simp add: s)
  have "section_of (Inr r) ''rightsList'' = Some (VDict [(''rights'', VNone)])"
    if "\<not> sets_key ext ''rightsList''" "\<not> sets_key (post_overrides data_post) ''rightsList''"
    using layer_without_key [OF that(1) a] layer_without_key [OF that(2) b] d
    by (simp add: s deepmerge_other)
  with pl ex show ?thesis
    by blast
qed

theorem missing_license_keeps_rights_section_witness:
  "parseLicense example_post_unlicensed = Inr VNone
   \<and> section_of (assembleMetadata example_lib example_blog example_post_unlicensed
                   example_author VNone) ''rightsList''
       = Some (VDict [(''rights'', VNone)])"
proof -
  have h1: "\<not> contains example_post_unlicensed ''license''"
    by code_simp
  have "\<not> isl (assembleMetadata example_lib example_blog example_post_unlicensed
                  example_author VNone)"
    by code_simp
  then obtain r where h2: "assembleMetadata example_lib example_blog example_post_unlicensed
                  example_author VNone = Inr r"
    by (cases "assembleMetadata example_lib example_blog example_post_unlicensed
                  example_author VNone") auto
  have h3: "\<not> sets_key VNone ''rightsList''
            \<and> \<not> sets_key (post_overrides example_post_unlicensed) ''rightsList''"
    by code_simp
  from missing_license_keeps_rights_section [OF h1 h2] h3 show ?thesis
    unfolding h2 by blast
qed

text \<open>
  C9, as the claim states it, fails: the post below has no \<open>abstract\<close>, and the
  record has a descriptions section, the one among the overrides that the post carries.
\<close>

theorem descriptions_without_abstract_counterexample:
  "\<not> contains example_post_described ''abstract''
   \<and> section_of (assembleMetadata example_lib example_blog example_post_described
                   example_author VNone) ''descriptions''
       = Some (VDict [(''description'', VStr ''Set by hand'')])"
  by code_simp

text \<open>
  C9, amended. When neither override layer (the mapping given by the caller, the
  \<open>doi-additional-metadata\<close> of the post) sets the key \<open>descriptions\<close>, a record
  that \<open>assembleMetadata\<close> returns has no \<open>descriptions\<close> under \<open>resource\<close> for
  a post without \<open>abstract\<close>, and for a post with \<open>abstract\<close> it has the
  descriptions section with that text.
\<close>

theorem descriptions_follow_abstract:
  assumes "assembleMetadata L blog data_post author ext = Inr r"
    and "\<not> sets_key ext ''descriptions''"
    and "\<not> sets_key (post_overrides data_post) ''descriptions''"
  shows "section_of (Inr r) ''descriptions'' =
     (case map_of data_post ''abstract'' of
        None \<Rightarrow> None
      | Some t \<Rightarrow> Some (VDict [(''description'',
            VDict [(''@descriptionType'', VStr ''Abstract''), (''#text'', t)])]))"
proof -
  from section_of_assembled [OF assms(1)] obtain data A B where
    f: "fixed_sections L blog data_post author = Inr data"
    and a: "addAdditionalMetadata ext = VDict A"
    and b: "addAdditionalMetadata (post_overrides data_post) = VDict B"
    and s: "\<And>k. section_of (Inr r) k = map_of (deepmerge (deepmerge data A) B) k"
    by blast
  have "section_of (Inr r) ''descriptions'' = map_of data ''descriptions''"
    using layer_without_key [OF assms(2) a] layer_without_key [OF assms(3) b]
    by (simp add: s deepmerge_other)
  then show ?thesis
    by (simp add: fixed_sections_descriptions [OF f])
qed

theorem descriptions_follow_abstract_witness:
  "section_of (assembleMetadata example_lib example_blog example_post_registered
                 example_author VNone) ''descriptions'' = None
   \<and> section_of (assembleMetadata example_lib example_blog
                   (example_post_registered @ [(''abstract'', VStr ''About greetings'')])
                   example_author VNone) ''descriptions''
       = Some (VDict [(''description'',
            VDict [(''@descriptionType'', VStr ''Abstract''), (''#text'', VStr ''About greetings'')])])"
proof -
  let ?p = "example_post_registered @ [(''abstract'', VStr ''About greetings'')]"
  have "\<not> isl (assembleMetadata example_lib example_blog example_post_registered
                  example_author VNone)"
    by code_simp
  then obtain r where r: "assembleMetadata example_lib example_blog example_post_registered
                  example_author VNone = Inr r"
    by (cases "assembleMetadata example_lib example_blog example_post_registered
                  example_author VNone") auto
  have "\<not> isl (assembleMetadata example_lib example_blog ?p example_author VNone)"
    by code_simp
  then obtain r' where r': "assembleMetadata example_lib example_blog ?p example_author VNone = Inr r'"
    by (cases "assembleMetadata example_lib example_blog ?p example_author VNone") auto
  have k: "\<not> sets_key VNone ''descriptions''"
    "\<not> sets_key (post_overrides example_post_registered) ''descriptions''"
    "\<not> sets_key (post_overrides ?p) ''descriptions''"
    by code_simp+
  have a: "map_of example_post_registered ''abstract'' = None"
    "map_of ?p ''abstract'' = Some (VStr ''About greetings'')"
    by code_simp+
  from descriptions_follow_abstract [OF r k(1) k(2)] descriptions_follow_abstract [OF r' k(1) k(3)]
  show ?thesis
    unfolding r r' a by simp
qed

text \<open>
  C2. \<open>assembleMetadata\<close> merges the mapping given by the caller first and the
  \<open>doi-additional-metadata\<close> of the post second. So every leaf of the post's layer,
  at whatever path, is in the record at that path, whatever the caller's layer sets
  there; and a leaf of the caller's layer is in the record when the post's layer does
  not set the first key of its path. With \<open>{"version": "2.0"}\<close> from the caller and
  \<open>{"version": "3.0"}\<close> in the post the version of the record is \<open>3.0\<close>.
\<close>

theorem post_overrides_win:
  assumes "assembleMetadata L blog data_post author ext = Inr r"
    and "p \<noteq> []" and "\<not> is_mapping v"
  shows "(map_of data_post ''doi-additional-metadata'' = Some (VDict B) \<and> wf_val (VDict B)
            \<and> lookup_path (VDict B) p = Some v
          \<longrightarrow> lookup_path r (''resource'' # p) = Some v)
       \<and> (ext = VDict A \<and> wf_val (VDict A) \<and> lookup_path (VDict A) p = Some v
            \<and> \<not> sets_key (post_overrides data_post) (hd p)
          \<longrightarrow> lookup_path r (''resource'' # p) = Some v)"
proof -
  from section_of_assembled [OF assms(1)] obtain data A' B' where
    a: "addAdditionalMetadata ext = VDict A'"
    and b: "addAdditionalMetadata (post_overrides data_post) = VDict B'"
    and l: "\<And>ks. lookup_path r (''resource'' # ks)
                 = lookup_path (VDict (deepmerge (deepmerge data A') B')) ks"
    by blast
  have post: "lookup_path r (''resource'' # p) = Some v"
    if h: "map_of data_post ''doi-additional-metadata'' = Some (VDict B)" "wf_val (VDict B)"
      "lookup_path (VDict B) p = Some v"
  proof -
    from h(3) assms(2) have "B \<noteq> []"
      by (cases p) auto
    with h(1) b have "B' = B"
      by (simp add: post_overrides_def addAdditionalMetadata_def)
    then show ?thesis
      using deepmerge_leaf_wins [OF h(2) h(3) assms(3) assms(2)] by (simp add: l)
  qed
  have extl: "lookup_path r (''resource'' # p) = Some v"
    if h: "ext = VDict A" "wf_val (VDict A)" "lookup_path (VDict A) p = Some v"
      "\<not> sets_key (post_overrides data_post) (hd p)"
  proof -
    from h(3) assms(2) have "A \<noteq> []"
      by (cases p) auto
    with h(1) a have "A' = A"
      by (simp add: addAdditionalMetadata_def)
    then have m: "lookup_path (VDict (deepmerge data A')) p = Some v"
      using deepmerge_leaf_wins [OF h(2) h(3) assms(3) assms(2)] by simp
    obtain k ks where p: "p = k # ks"
      using assms(2) by (cases p) auto
    have "k \<notin> fst ` set B'"
      using layer_without_key [OF h(4) b] p by simp
    then have "map_of (deepmerge (deepmerge data A') B') k = map_of (deepmerge data A') k"
      by (rule deepmerge_other)
    then show ?thesis
      using m by (simp add: l p)
  qed
  from post extl show ?thesis
    by blast
qed

theorem post_overrides_win_witness:
  "section_of (assembleMetadata example_lib example_blog example_post_versioned example_author
                 (VDict [(''version'', VStr ''2.0'')])) ''version'' = Some (VStr ''3.0'')
   \<and> section_of (assembleMetadata example_lib example_blog example_post_registered example_author
                 (VDict [(''version'', VStr ''2.0'')])) ''version'' = Some (VStr ''2.0'')"
proof -
  let ?A = "[(''version'', VStr ''2.0'')]"
  let ?B = "[(''version'', VStr ''3.0'')]"
  have "\<not> isl (assembleMetadata example_lib example_blog example_post_versioned example_author
                 (VDict ?A))"
    by code_simp
  then obtain r where r: "assembleMetadata example_lib example_blog example_post_versioned
      example_author (VDict ?A) = Inr r"
    by (cases "assembleMetadata example_lib example_blog example_post_versioned
      example_author (VDict ?A)") auto
  have "\<not> isl (assembleMetadata example_lib example_blog example_post_registered example_author
                 (VDict ?A))"
    by code_simp
  then obtain r' where r': "assembleMetadata example_lib example_blog example_post_registered
      example_author (VDict ?A) = Inr r'"
    by (cases "assembleMetadata example_lib example_blog example_post_registered
      example_author (VDict ?A)") auto
  have n: "[''version''] \<noteq> []" "\<not> is_mapping (VStr ''3.0'')" "\<not> is_mapping (VStr ''2.0'')"
    by simp_all
  have b: "map_of example_post_versioned ''doi-additional-metadata'' = Some (VDict ?B)
      \<and> wf_val (VDict ?B) \<and> lookup_path (VDict ?B) [''version''] = Some (VStr ''3.0'')"
    by code_simp
  have a: "VDict ?A = VDict ?A \<and> wf_val (VDict ?A)
      \<and> lookup_path (VDict ?A) [''version''] = Some (VStr ''2.0'')
      \<and> \<not> sets_key (post_overrides example_post_registered) (hd [''version''])"
    by code_simp
  from post_overrides_win [OF r n(1) n(2), of ?B ?A] b
  have 1: "lookup_path r [''resource'', ''version''] = Some (VStr ''3.0'')"
    by blast
  from post_overrides_win [OF r' n(1) n(3), of ?B ?A] a
  have 2: "lookup_path r' [''resource'', ''version''] = Some (VStr ''2.0'')"
    by blast
  show ?thesis
    unfolding r r' section_of_def using 1 2 by simp
qed

subsection \<open>The permalink\<close>

lemma dash_not_digit: "\<not> is_digit CHR ''-''"
  by (simp add: is_digit_def)

lemma digit_not_dash: "is_digit c \<Longrightarrow> c \<noteq> CHR ''-''"
  using dash_not_digit by auto

lemma dash_here: "dash (CHR ''-'' # r) = [(''-'', r)]"
  by (simp add: dash_def)

lemma dash_digit: "is_digit c \<Longrightarrow> dash (c # r) = []"
  by (simp add: dash_def digit_not_dash)

lemma digits_n_exact: "list_all is_digit y \<Longrightarrow> length y = n \<Longrightarrow> digits_n n (y @ r) = [(y, r)]"
  by (simp add: digits_n_def)

lemma digits_1_2_dash:
  assumes "list_all is_digit m" "length m = 1 \<or> length m = 2"
  shows "digits_1_2 (m @ CHR ''-'' # r) =
     (if length m = 1 then [(m, CHR ''-'' # r)]
      else [(m, CHR ''-'' # r), (take 1 m, drop 1 m @ CHR ''-'' # r)])"
proof (cases "length m = 1")
  case True
  then obtain a where m: "m = [a]"
    by (cases m) auto
  show ?thesis
    using assms(1) by (simp add: m digits_1_2_def digits_n_def dash_not_digit)
next
  case False
  with assms(2) have "length m = 2" by simp
  then obtain a b where m: "m = [a, b]"
    by (cases m; cases "tl m") auto
  show ?thesis
    using assms(1) by (simp add: m digits_1_2_def digits_n_def)
qed

lemma seq_digits_dash:
  assumes "list_all is_digit m" "length m = 1 \<or> length m = 2"
  shows "seq digits_1_2 (seq dash q) (m @ CHR ''-'' # r) = map (\<lambda>(x, r'). (m @ CHR ''-'' # x, r')) (q r)"
proof (cases "length m = 1")
  case True
  then show ?thesis
    using assms unfolding seq_def digits_1_2_dash [OF assms]
    by (simp add: dash_here split_def)
next
  case False
  with assms(2) have "length m = 2" by simp
  then obtain a b where m: "m = [a, b]"
    by (cases m; cases "tl m") auto
  have b: "is_digit b"
    using assms(1) m by simp
  show ?thesis
    unfolding seq_def digits_1_2_dash [OF assms]
    by (simp add: m dash_here dash_digit [OF b] split_def)
qed

lemma seq_digits_dash_last:
  assumes "list_all is_digit m" "length m = 1 \<or> length m = 2"
  shows "seq digits_1_2 dash (m @ CHR ''-'' # r) = [(m @ ''-'', r)]"
proof (cases "length m = 1")
  case True
  then show ?thesis
    using assms unfolding seq_def digits_1_2_dash [OF assms]
    by (simp add: dash_here)
next
  case False
  with assms(2) have "length m = 2" by simp
  then obtain a b where m: "m = [a, b]"
    by (cases m; cases "tl m") auto
  have b: "is_digit b"
    using assms(1) m by simp
  show ?thesis
    unfolding seq_def digits_1_2_dash [OF assms]
    by (simp add: m dash_here dash_digit [OF b])
qed

lemma seq_year_dash:
  assumes "list_all is_digit y" "length y = 4"
  shows "seq (digits_n 4) (seq dash q) (y @ CHR ''-'' # r) = map (\<lambda>(x, r'). (y @ CHR ''-'' # x, r')) (q r)"
  unfolding seq_def digits_n_exact [OF assms]
  by (simp add: dash_here split_def)

lemma date_prefix_match:
  assumes "list_all is_digit y" "length y = 4"
    and "list_all is_digit m" "length m = 1 \<or> length m = 2"
    and "list_all is_digit d" "length d = 1 \<or> length d = 2"
  shows "date_prefix (y @ CHR ''-'' # m @ CHR ''-'' # d @ CHR ''-'' # rest)
           = [(y @ CHR ''-'' # m @ CHR ''-'' # d @ ''-'', rest)]"
  unfolding date_prefix_def
  by (simp add: seq_year_dash [OF assms(1,2)] seq_digits_dash [OF assms(3,4)]
      seq_digits_dash_last [OF assms(5,6)])

lemma re_search_dated:
  assumes "list_all is_digit y" "length y = 4"
    and "list_all is_digit m" "length m = 1 \<or> length m = 2"
    and "list_all is_digit d" "length d = 1 \<or> length d = 2"
  shows "re_search (y @ CHR ''-'' # m @ CHR ''-'' # d @ CHR ''-'' # rest)
           = Some (y @ CHR ''-'' # m @ CHR ''-'' # d @ ''-'',
                   takeWhile (\<lambda>c. c \<noteq> CHR 0x0A) rest)"
  by (subst re_search.simps) (simp add: match_here_def date_prefix_match [OF assms])

text \<open>
  C5, as the claim states it, fails for a base URL that ends with a slash:
  \<open>genPermalink\<close> strips trailing slashes from the base URL before it appends the
  date, so the permalink is not the base URL followed by \<open>/YYYY/MM/DD/...\<close>.
\<close>

theorem base_url_slash_counterexample:
  "genPermalink_script example_lib [(''url'', VStr ''https://blog.acme.com/'')]
     ''2022-08-01-hello-world.md'' [(''date'', VStr ''2022-08-01'')]
     = Inr ''https://blog.acme.com/2022/08/01/hello-world.html''
   \<and> ''https://blog.acme.com/2022/08/01/hello-world.html''
       \<noteq> ''https://blog.acme.com/'' @ ''/2022/08/01/hello-world.html''"
  by code_simp

text \<open>
  C5, amended, for \<open>genPermalink\<close> of \<open>doi-jekyll.py\<close>. When the base URL is a
  text, the date of the post is a text that the date parser reads, and the stem of the
  post's file name starts with four digits, one or two digits and one or two digits,
  each followed by a dash, the permalink is the base URL without trailing slashes,
  then \<open>/YYYY/MM/DD/\<close> from the parsed date, then the rest of the stem up to its
  first line feed (the whole rest when it has none), then \<open>.html\<close>.
\<close>

theorem permalink_of_dated_post:
  assumes "map_of data_blog ''url'' = Some (VStr base)"
    and "map_of data_post ''date'' = Some (VStr ds)"
    and "dateparser_parse L ds = Some dt"
    and "purepath_stem post_filename = y @ ''-'' @ m @ ''-'' @ d @ ''-'' @ rest"
    and "list_all is_digit y" "length y = 4"
    and "list_all is_digit m" "length m = 1 \<or> length m = 2"
    and "list_all is_digit d" "length d = 1 \<or> length d = 2"
  shows "genPermalink_script L data_blog post_filename data_post =
           Inr (rstrip_slash base @ ''/'' @ strftime_Ymd dt @ ''/''
                @ takeWhile (\<lambda>c. c \<noteq> CHR 0x0A) rest @ ''.html'')"
  using assms(1-3)
  by (simp add: genPermalink_script_def bnd_def getitem_def str_rstrip_slash_def parse_date_def
      Let_def assms(4) re_search_dated [OF assms(5-10)] del: re_search.simps)

theorem permalink_of_dated_post_witness:
  "genPermalink_script example_lib example_blog ''_posts/2022-08-01-hello-world.md'' example_post
     = Inr ''https://blog.acme.com/2022/08/01/hello-world.html''"
proof -
  have h: "map_of example_blog ''url'' = Some (VStr ''https://blog.acme.com'')"
    "map_of example_post ''date'' = Some (VStr ''2022-08-01'')"
    "dateparser_parse example_lib ''2022-08-01'' = Some \<lparr>year = 2022, month = 8, day = 1\<rparr>"
    "purepath_stem ''_posts/2022-08-01-hello-world.md''
       = ''2022'' @ ''-'' @ ''08'' @ ''-'' @ ''01'' @ ''-'' @ ''hello-world''"
    "list_all is_digit ''2022''" "length ''2022'' = 4"
    "list_all is_digit ''08''" "length ''08'' = 1 \<or> length ''08'' = 2"
    "list_all is_digit ''01''" "length ''01'' = 1 \<or> length ''01'' = 2"
    by code_simp+
  have v: "rstrip_slash ''https://blog.acme.com'' @ ''/''
        @ strftime_Ymd \<lparr>year = 2022, month = 8, day = 1\<rparr> @ ''/''
        @ takeWhile (\<lambda>c. c \<noteq> CHR 0x0A) ''hello-world'' @ ''.html''
      = ''https://blog.acme.com/2022/08/01/hello-world.html''"
    by code_simp
  from permalink_of_dated_post [OF h] show ?thesis
    by (simp only: v)
qed

text \<open>
  \<open>genPermalink\<close> of \<open>doijekyll/doijekyll.py\<close> searches the stem in the same way
  and then puts the fixed text \<open>asf\<close> in the place of the cleaned stem.
\<close>

lemma packaged_permalink_placeholder:
  "genPermalink example_lib example_blog ''2022-08-01-hello-world.md'' example_post
     = Inr ''https://blog.acme.com/2022/08/01/asf.html''"
  by code_simp

end
